theory Spec2Isabelle
  imports Main "HOL-Library.Word"
begin

section \<open>The Spotify source of tuna: a shallow embedding of spotify\_source.cpp\<close>

text \<open>
  The development follows \<^verbatim>\<open>src/query/spotify_source.cpp\<close>: the Retry-After header
  scan (\<^verbatim>\<open>extract_timeout\<close>), the transport with its function-local backoff counters
  (\<^verbatim>\<open>execute_command\<close>), the token endpoint (\<^verbatim>\<open>request_token\<close>,
  \<^verbatim>\<open>do_refresh_token\<close>), the track parser (\<^verbatim>\<open>parse_track_json\<close>), the poll cycle
  (\<^verbatim>\<open>spotify_source::refresh\<close>) and the command dispatcher
  (\<^verbatim>\<open>spotify_source::execute_capability\<close>).

  Everything the C++ reads from outside (the wall clock, the monotonic clock, what curl
  returns, the configured credentials) is an explicit argument of the model; everything
  it writes (member fields, the static counters, requests put on the wire, log lines,
  an escaping C++ exception) is part of the returned value.
\<close>

subsection \<open>C++ exceptions\<close>

text \<open>
  \<^verbatim>\<open>std::string::at\<close> and \<^verbatim>\<open>std::stoi\<close> throw; nothing in the file catches. The model
  returns the exception as a value. \<open>index_out_of_bounds\<close> stands for
  \<^verbatim>\<open>QList::operator[]\<close> outside the list (an assertion failure, undefined behaviour in
  a release build).
\<close>

datatype exn = out_of_range | invalid_argument | index_out_of_bounds

subsection \<open>JSON values as Qt presents them\<close>

text \<open>
  A \<^verbatim>\<open>QJsonValue\<close> is null, a boolean, a number, a string, an array, an object, or
  undefined (what \<^verbatim>\<open>operator[]\<close> gives for a missing key). The code observes numbers
  only through \<^verbatim>\<open>isDouble\<close> and \<^verbatim>\<open>toInt\<close>, so a number is either integral (with its
  value) or not integral. An object is the list of its members; lookup takes the first
  entry of a key.
\<close>

datatype json =
    JUndefined
  | JNull
  | JBool bool
  | JInt int
  | JFrac
  | JString string
  | JArray "json list"
  | JObject "(string \<times> json) list"

definition isString :: "json \<Rightarrow> bool" where
  "isString v = (case v of JString _ \<Rightarrow> True | _ \<Rightarrow> False)"

definition isBool :: "json \<Rightarrow> bool" where
  "isBool v = (case v of JBool _ \<Rightarrow> True | _ \<Rightarrow> False)"

definition isDouble :: "json \<Rightarrow> bool" where
  "isDouble v = (case v of JInt _ \<Rightarrow> True | JFrac \<Rightarrow> True | _ \<Rightarrow> False)"

definition isObject :: "json \<Rightarrow> bool" where
  "isObject v = (case v of JObject _ \<Rightarrow> True | _ \<Rightarrow> False)"

definition isArray :: "json \<Rightarrow> bool" where
  "isArray v = (case v of JArray _ \<Rightarrow> True | _ \<Rightarrow> False)"

text \<open>The conversions return Qt's defaults on a value of another type.\<close>

definition toString :: "json \<Rightarrow> string" where
  "toString v = (case v of JString s \<Rightarrow> s | _ \<Rightarrow> [])"

definition toBool :: "json \<Rightarrow> bool" where
  "toBool v = (case v of JBool b \<Rightarrow> b | _ \<Rightarrow> False)"

definition INT_MIN :: int where
  "INT_MIN = - 2147483648"

definition INT_MAX :: int where
  "INT_MAX = 2147483647"

definition toInt :: "json \<Rightarrow> int" where
  "toInt v = (case v of JInt n \<Rightarrow> (if INT_MIN \<le> n \<and> n \<le> INT_MAX then n else 0) | _ \<Rightarrow> 0)"

definition toObject :: "json \<Rightarrow> (string \<times> json) list" where
  "toObject v = (case v of JObject kvs \<Rightarrow> kvs | _ \<Rightarrow> [])"

definition toArray :: "json \<Rightarrow> json list" where
  "toArray v = (case v of JArray vs \<Rightarrow> vs | _ \<Rightarrow> [])"

text \<open>\<^verbatim>\<open>QJsonObject::operator[]\<close> (const) and \<^verbatim>\<open>QJsonObject::contains\<close>.\<close>

definition obj_at :: "(string \<times> json) list \<Rightarrow> string \<Rightarrow> json" where
  "obj_at kvs k = (case map_of kvs k of None \<Rightarrow> JUndefined | Some v \<Rightarrow> v)"

definition contains :: "(string \<times> json) list \<Rightarrow> string \<Rightarrow> bool" where
  "contains kvs k = (map_of kvs k \<noteq> None)"

text \<open>
  A \<^verbatim>\<open>QJsonDocument\<close> is null (nothing parsed) or holds an array or an object:
  \<^verbatim>\<open>json option\<close>. \<^verbatim>\<open>object()\<close> of a document that is not an object is the empty
  object, and \<^verbatim>\<open>operator[]\<close> of it is undefined.
\<close>

definition doc_isObject :: "json option \<Rightarrow> bool" where
  "doc_isObject d = (case d of Some v \<Rightarrow> isObject v | None \<Rightarrow> False)"

definition doc_object :: "json option \<Rightarrow> (string \<times> json) list" where
  "doc_object d = (case d of Some v \<Rightarrow> toObject v | None \<Rightarrow> [])"

subsection \<open>Characters and \<^verbatim>\<open>std::stoi\<close>\<close>

definition isspace :: "char \<Rightarrow> bool" where
  "isspace c = (c \<in> set [CHR '' '', CHR 0x09, CHR 0x0A, CHR 0x0B, CHR 0x0C, CHR 0x0D])"

definition isdigit :: "char \<Rightarrow> bool" where
  "isdigit c = (c \<in> set ''0123456789'')"

definition digit_val :: "char \<Rightarrow> int" where
  "digit_val c = int (of_char c) - 48"

text \<open>The decimal value of a run of digits, most significant first.\<close>

fun digits_val :: "int \<Rightarrow> string \<Rightarrow> int" where
  "digits_val acc [] = acc"
| "digits_val acc (c # cs) = digits_val (10 * acc + digit_val c) cs"

text \<open>
  \<^verbatim>\<open>std::stoi(str)\<close>: \<^verbatim>\<open>strtol\<close> in base 10 skips leading white space, takes an
  optional sign and then the longest run of digits, ignoring what follows. No digit
  there: \<^verbatim>\<open>std::invalid_argument\<close>. A value outside \<^verbatim>\<open>int\<close>: \<^verbatim>\<open>std::out_of_range\<close>.
\<close>

definition stoi :: "string \<Rightarrow> exn + int" where
  "stoi str =
     (let t = dropWhile isspace str;
          neg = (case t of c # _ \<Rightarrow> c = CHR ''-'' | [] \<Rightarrow> False);
          u = (case t of c # r \<Rightarrow> (if c = CHR ''-'' \<or> c = CHR ''+'' then r else t) | [] \<Rightarrow> t);
          ds = takeWhile isdigit u;
          v = (if neg then - digits_val 0 ds else digits_val 0 ds)
      in if ds = [] then Inl invalid_argument
         else if v < INT_MIN \<or> INT_MAX < v then Inl out_of_range
         else Inr v)"

subsection \<open>\<^verbatim>\<open>extract_timeout\<close>\<close>

text \<open>\<^verbatim>\<open>std::string::find\<close>: the lowest position at which \<open>what\<close> occurs, if any.\<close>

fun find_str :: "string \<Rightarrow> string \<Rightarrow> nat option" where
  "find_str what [] = (if what = [] then Some 0 else None)"
| "find_str what (c # cs) =
     (if take (length what) (c # cs) = what then Some 0
      else map_option Suc (find_str what cs))"

text \<open>
  The loop \<^verbatim>\<open>while (header.at(end) != '\n') end++;\<close>. \<^verbatim>\<open>at\<close> throws
  \<^verbatim>\<open>std::out_of_range\<close> at the first index past the string.
\<close>

function scan_newline :: "string \<Rightarrow> nat \<Rightarrow> exn + nat" where
  "scan_newline header e =
     (if length header \<le> e then Inl out_of_range
      else if header ! e = CHR 0x0A then Inr e
      else scan_newline header (Suc e))"
  by pat_completeness auto
termination
  by (relation "measure (\<lambda>(header, e). length header - e)") auto

declare scan_newline.simps [simp del]

definition substr :: "string \<Rightarrow> nat \<Rightarrow> nat \<Rightarrow> string" where
  "substr s pos n = take n (drop pos s)"

definition what :: string where
  "what = ''Retry-After: ''"

text \<open>
  The out-parameter \<open>timeout\<close> is a \<^verbatim>\<open>uint64_t\<close>; the \<^verbatim>\<open>int\<close> that \<^verbatim>\<open>stoi\<close>
  returns is converted to it. It is set to zero before anything can throw, so on
  \<open>Inl\<close> the caller's variable holds zero.
\<close>

definition extract_timeout :: "string \<Rightarrow> exn + 64 word" where
  "extract_timeout header =
     (case find_str what header of
        None \<Rightarrow> Inr 0
      | Some p \<Rightarrow>
          (let pos = p + length what in
           case scan_newline header pos of
             Inl x \<Rightarrow> Inl x
           | Inr e \<Rightarrow>
               (case stoi (substr header pos (e - pos)) of
                  Inl x \<Rightarrow> Inl x
                | Inr v \<Rightarrow> Inr (word_of_int v))))"

subsection \<open>The playback record\<close>

text \<open>
  Modelled from the spec: the class \<^verbatim>\<open>song\<close> behind \<^verbatim>\<open>m_current\<close> is declared
  outside the two source files. The spec's playback record is a set of fields, each set
  or unset, "fully cleared (every field reset)" by \<^verbatim>\<open>clear()\<close>; \<^verbatim>\<open>set(key, value)\<close>
  writes one field. The record is a map from the \<^verbatim>\<open>meta\<close> keys this file uses to the
  stored value. The status is stored as the enumerator itself.
\<close>

datatype meta =
    TITLE | ARTIST | ALBUM | RELEASE | COVER | DURATION | PROGRESS | STATUS | URL
  | CONTEXT | CONTEXT_URL | CONTEXT_EXTERNAL_URL | PLAYLIST_NAME | EXPLICIT
  | DISC_NUMBER | TRACK_NUMBER | RELEASE_DAY | RELEASE_MONTH | RELEASE_YEAR

datatype play_state = state_playing | state_paused | state_stopped

datatype variant =
    V_int int
  | V_str string
  | V_list "string list"
  | V_bool bool
  | V_state play_state

type_synonym song = "meta \<rightharpoonup> variant"

definition song_clear :: song where
  "song_clear = Map.empty"

definition song_set :: "song \<Rightarrow> meta \<Rightarrow> variant \<Rightarrow> song" where
  "song_set sg k v = sg(k \<mapsto> v)"

subsection \<open>What goes out: requests and log lines\<close>

text \<open>
  A request put on the wire is either the POST to \<^verbatim>\<open>TOKEN_URL\<close> (with the Basic
  credentials and the form body) or a player API call (bearer token, URL, custom request
  type, the POST fields given to curl, curl timeout). A log line is its level and its
  format string.
\<close>

datatype request =
    Token_request string string int
  | Api_request string string "string option" "string option" int

datatype log = berr string | binfo string | bwarn string | bdebug string

subsection \<open>What comes in: curl's result\<close>

text \<open>
  \<^verbatim>\<open>curl_easy_perform\<close> either fails (\<open>Curl_error\<close>, with the header text received so
  far) or succeeds with an HTTP status, the header text and a body. The body is held as
  \<^verbatim>\<open>QJsonDocument::fromJson\<close> classifies it: empty, not empty and not parseable (a null
  document), or a parsed document.
\<close>

datatype reply_body = Empty_body | Bad_json | Json json

datatype curl_result = Curl_error string | Curl_ok int string reply_body

definition fromJson :: "reply_body \<Rightarrow> json option" where
  "fromJson b = (case b of Json d \<Rightarrow> Some d | _ \<Rightarrow> None)"

definition body_empty :: "reply_body \<Rightarrow> bool" where
  "body_empty b = (case b of Empty_body \<Rightarrow> True | _ \<Rightarrow> False)"

subsection \<open>State\<close>

text \<open>
  One record holds the members of \<^verbatim>\<open>spotify_source\<close> that the file touches, the three
  \<^verbatim>\<open>static int\<close> counters local to \<^verbatim>\<open>execute_command\<close> (32-bit, read as signed), and
  the two traces (\<open>wire\<close>: requests sent, \<open>logged\<close>: log lines), oldest first.
  \<^verbatim>\<open>m_timeout_length\<close> is the \<^verbatim>\<open>uint64_t\<close> that \<^verbatim>\<open>extract_timeout\<close> writes;
  \<^verbatim>\<open>m_timout_start\<close> is compared with \<^verbatim>\<open>os_gettime_ns()\<close>, also 64-bit unsigned.
  \<^verbatim>\<open>m_last_state\<close> keeps what \<^verbatim>\<open>m_current\<close> holds under \<^verbatim>\<open>STATUS\<close>.
\<close>

record world =
  m_logged_in :: bool
  m_token :: string
  m_refresh_token :: string
  m_auth_code :: string
  m_token_termination :: int
  m_curl_timeout_ms :: int
  m_creds :: string
  m_timout_start :: "64 word"
  m_timeout_length :: "64 word"
  m_current :: song
  m_last_state :: "variant option"
  timeout_start :: "32 word"
  timeout :: "32 word"
  timeout_multiplier :: "32 word"
  wire :: "request list"
  logged :: "log list"

definition send :: "request \<Rightarrow> world \<Rightarrow> world" where
  "send r w = w\<lparr>wire := wire w @ [r]\<rparr>"

definition blog :: "log \<Rightarrow> world \<Rightarrow> world" where
  "blog l w = w\<lparr>logged := logged w @ [l]\<rparr>"

definition set_current :: "meta \<Rightarrow> variant \<Rightarrow> world \<Rightarrow> world" where
  "set_current k v w = w\<lparr>m_current := song_set (m_current w) k v\<rparr>"

subsection \<open>Constants\<close>

text \<open>
  Modelled from the spec: the status codes and \<^verbatim>\<open>SECOND_TO_NS\<close> are macros of
  \<^verbatim>\<open>util/constants.hpp\<close>, outside the two source files. The spec names them HTTP 200,
  HTTP 204 and the "too many requests" (429) status; \<^verbatim>\<open>SECOND_TO_NS\<close> converts the
  seconds of \<^verbatim>\<open>Retry-After\<close> to the nanoseconds of \<^verbatim>\<open>os_gettime_ns\<close>.
\<close>

definition HTTP_OK :: int where
  "HTTP_OK = 200"

definition HTTP_NO_CONTENT :: int where
  "HTTP_NO_CONTENT = 204"

definition STATUS_RETRY_AFTER :: int where
  "STATUS_RETRY_AFTER = 429"

definition SECOND_TO_NS :: "64 word" where
  "SECOND_TO_NS = 1000000000"

definition PLAYER_URL :: string where
  "PLAYER_URL = ''https://api.spotify.com/v1/me/player''"

definition PLAYER_PAUSE_URL :: string where
  "PLAYER_PAUSE_URL = PLAYER_URL @ ''/pause''"

definition PLAYER_PLAY_URL :: string where
  "PLAYER_PLAY_URL = PLAYER_URL @ ''/play''"

definition PLAYER_NEXT_URL :: string where
  "PLAYER_NEXT_URL = PLAYER_URL @ ''/next''"

definition PLAYER_PREVIOUS_URL :: string where
  "PLAYER_PREVIOUS_URL = PLAYER_URL @ ''/previous''"

subsection \<open>\<^verbatim>\<open>execute_command\<close>\<close>

text \<open>
  One call reads the wall clock (\<^verbatim>\<open>util::epoch()\<close>) at the cooldown gate and, on a
  transport failure, again when it stamps \<^verbatim>\<open>timeout_start\<close>; \<open>curl\<close> is what
  \<^verbatim>\<open>curl_easy_perform\<close> does if the request is made.
\<close>

record call_env =
  epoch_gate :: int
  epoch_fail :: int
  curl :: curl_result

text \<open>
  The gate: \<^verbatim>\<open>timeout > 0\<close> and not \<^verbatim>\<open>util::epoch() - timeout_start >= timeout\<close>. While
  it holds the call returns 0 and sends nothing.
\<close>

definition waiting :: "world \<Rightarrow> call_env \<Rightarrow> bool" where
  "waiting w env =
     (0 < sint (timeout w) \<and> \<not> sint (timeout w) \<le> epoch_gate env - sint (timeout_start w))"

text \<open>
  \<^verbatim>\<open>CURLOPT_POSTFIELDS\<close> is set only under a custom request type: to the request data,
  or to \<^verbatim>\<open>{}\<close> when there is none. Without a custom request type the request data is
  not read.
\<close>

definition postfields :: "string option \<Rightarrow> string option \<Rightarrow> string option" where
  "postfields custom_request_type request_data =
     (case custom_request_type of
        None \<Rightarrow> None
      | Some ty \<Rightarrow> Some (case request_data of None \<Rightarrow> ''{}'' | Some d \<Rightarrow> d))"

text \<open>
  The result is the returned \<^verbatim>\<open>http_code\<close> with the two reference parameters
  \<^verbatim>\<open>response_header\<close> and \<^verbatim>\<open>response_json\<close> as the call leaves them.
\<close>

definition execute_command ::
  "world \<Rightarrow> call_env \<Rightarrow> string \<Rightarrow> string \<Rightarrow> string \<Rightarrow> json option \<Rightarrow> int \<Rightarrow>
   string option \<Rightarrow> string option \<Rightarrow> (int \<times> string \<times> json option) \<times> world" where
  "execute_command w env auth_token url response_header response_json curl_timeout
     custom_request_type request_data =
     (if waiting w env then ((0, response_header, response_json), w)
      else
        let w1 = (if 0 < sint (timeout w)
                  then blog (binfo ''cURL request timeout over.'') (w\<lparr>timeout := 0\<rparr>)
                  else w);
            w2 = (if response_header \<noteq> [] then blog (bdebug ''Response header: %s'') w1 else w1);
            w3 = send (Api_request auth_token url custom_request_type
                         (postfields custom_request_type request_data) curl_timeout) w2
        in case curl env of
             Curl_ok code hdr body \<Rightarrow>
               (if fromJson body = None \<and> \<not> body_empty body
                then ((code, response_header @ hdr, fromJson body),
                      blog (berr ''Failed to parse json response: %s, Error: %s'') w3)
                else ((code, response_header @ hdr, fromJson body),
                      w3\<lparr>timeout_multiplier := 1, timeout_start := 0, timeout := 0\<rparr>))
           | Curl_error hdr \<Rightarrow>
               ((- 1, response_header @ hdr, response_json),
                blog (berr ''cURL failed while sending spotify command (HTTP error %i, cURL error %i: '%s'). Waiting %i seconds before trying again'')
                  (w3\<lparr>timeout_start := word_of_int (epoch_fail env),
                      timeout := 5 * timeout_multiplier w3,
                      timeout_multiplier := timeout_multiplier w3 + 1\<rparr>)))"

subsection \<open>The token endpoint\<close>

text \<open>
  \<^verbatim>\<open>request_token\<close> returns the \<^verbatim>\<open>response_json\<close> reference parameter as it leaves
  it. The HTTP status of the token endpoint is not read.
\<close>

definition request_token ::
  "world \<Rightarrow> curl_result \<Rightarrow> string \<Rightarrow> string \<Rightarrow> json option \<Rightarrow> int \<Rightarrow> json option \<times> world" where
  "request_token w res request credentials response_json tmo =
     (if request = [] \<or> credentials = []
      then (response_json,
            blog (berr ''Cannot request token without valid credentials and/or auth code!'') w)
      else
        let w1 = send (Token_request credentials request tmo) w
        in case res of
             Curl_ok code hdr body \<Rightarrow>
               (if fromJson body = None
                then (None, blog (berr ''Couldn't parse response to json: %s'') w1)
                else (fromJson body, blog (binfo ''Spotify response: %s'') w1))
           | Curl_error hdr \<Rightarrow>
               (response_json, blog (berr ''Curl returned error code (%i) %s'') w1))"

text \<open>
  \<^verbatim>\<open>build_credentials\<close> recomputes \<^verbatim>\<open>m_creds\<close> from the configuration (the Base64 of
  client id and secret, or of the compiled-in \<^verbatim>\<open>SPOTIFY_CREDENTIALS\<close>); the
  configuration is outside the file, so the blob is an input. \<^verbatim>\<open>save()\<close> writes the
  members to the configuration and changes none of them; it is left out.
\<close>

record token_env =
  creds :: string
  epoch_token :: int
  token_curl :: curl_result

definition build_credentials :: "world \<Rightarrow> string \<Rightarrow> world" where
  "build_credentials w blob = w\<lparr>m_creds := blob\<rparr>"

text \<open>
  The result is the returned flag and the \<^verbatim>\<open>log\<close> reference parameter (the response
  document dumped into it, when one arrived).
\<close>

definition do_refresh_token :: "world \<Rightarrow> token_env \<Rightarrow> (bool \<times> json option) \<times> world" where
  "do_refresh_token w env =
     (let w0 = build_credentials w (creds env);
          w1 = (if m_refresh_token w0 = [] then blog (berr ''Refresh token is empty!'') w0 else w0);
          request = ''grant_type=refresh_token&refresh_token='' @ m_refresh_token w1;
          (response, w2) =
             request_token w1 (token_curl env) request (m_creds w1) None (m_curl_timeout_ms w1)
      in case response of
           None \<Rightarrow>
             ((False, None),
              (blog (berr ''Couldn't refresh Spotify token, response was null'') w2)
                \<lparr>m_logged_in := False\<rparr>)
         | Some doc \<Rightarrow>
             (let response_obj = toObject doc;
                  token = obj_at response_obj ''access_token'';
                  expires = obj_at response_obj ''expires_in'';
                  error = obj_at response_obj ''error'';
                  refresh_token = obj_at response_obj ''refresh_token'';
                  result = (isString token \<and> isDouble expires);
                  w3 = (if result
                        then blog (binfo ''Successfully logged in'')
                               (w2\<lparr>m_token := toString token,
                                   m_token_termination := epoch_token env + toInt expires\<rparr>)
                        else if isString error
                        then blog (berr ''Received error from spotify: %s'') w2
                        else blog (berr ''Couldn't parse json response'') w2);
                  w4 = (if isString refresh_token \<and> toString refresh_token \<noteq> []
                        then (blog (binfo ''Received a new fresh token'') w3)
                               \<lparr>m_refresh_token := toString refresh_token\<rparr>
                        else w3)
              in ((result, Some doc), w4\<lparr>m_logged_in := result\<rparr>)))"

text \<open>
  \<^verbatim>\<open>new_token\<close>, the exchange of the authorization code. It writes the three token
  fields together, inside its success branch only.
\<close>

definition REDIRECT_URI :: string where
  "REDIRECT_URI = ''https%3A%2F%2Funivrsal.github.io%2Fauth%2Ftoken''"

definition new_token :: "world \<Rightarrow> token_env \<Rightarrow> (bool \<times> json option) \<times> world" where
  "new_token w env =
     (let w0 = build_credentials w (creds env);
          request = ''grant_type=authorization_code&code='' @ m_auth_code w0 @
                    ''&redirect_uri='' @ REDIRECT_URI;
          (response, w1) =
             request_token w0 (token_curl env) request (m_creds w0) None (m_curl_timeout_ms w0)
      in if doc_isObject response then
           (let response_obj = doc_object response;
                token = obj_at response_obj ''access_token'';
                refresh = obj_at response_obj ''refresh_token'';
                expires = obj_at response_obj ''expires_in'';
                result = (isString token \<and> isString refresh \<and> isDouble expires);
                w2 = (if result
                      then w1\<lparr>m_token := toString token,
                              m_refresh_token := toString refresh,
                              m_token_termination := epoch_token env + toInt expires\<rparr>
                      else blog (berr ''Couldn't parse json response!'') w1)
            in ((result, response), w2\<lparr>m_logged_in := result\<rparr>))
         else ((False, None), w1\<lparr>m_logged_in := False\<rparr>))"

subsection \<open>\<^verbatim>\<open>parse_track_json\<close>\<close>

text \<open>
  \<^verbatim>\<open>QJsonValue::operator[](key)\<close>: the member of the value read as an object.
\<close>

definition value_at :: "json \<Rightarrow> string \<Rightarrow> json" where
  "value_at v k = obj_at (toObject v) k"

text \<open>
  \<^verbatim>\<open>QString::split(sep)\<close> keeps empty parts, so it returns one part more than there
  are separators.
\<close>

fun split_on :: "char \<Rightarrow> string \<Rightarrow> string list" where
  "split_on sep [] = [[]]"
| "split_on sep (c # cs) =
     (if c = sep then [] # split_on sep cs
      else (case split_on sep cs of p # ps \<Rightarrow> (c # p) # ps | [] \<Rightarrow> [[c]]))"

text \<open>
  \<^verbatim>\<open>QString::toInt()\<close>: white space around the number is ignored, a sign is allowed, the
  rest must be decimal digits and the value must fit an \<^verbatim>\<open>int\<close>; otherwise the result
  is 0.
\<close>

definition qstring_toInt :: "string \<Rightarrow> int" where
  "qstring_toInt str =
     (let t = rev (dropWhile isspace (rev (dropWhile isspace str)));
          neg = (case t of c # _ \<Rightarrow> c = CHR ''-'' | [] \<Rightarrow> False);
          u = (case t of c # r \<Rightarrow> (if c = CHR ''-'' \<or> c = CHR ''+'' then r else t) | [] \<Rightarrow> t);
          v = (if neg then - digits_val 0 u else digits_val 0 u)
      in if u = [] \<or> \<not> list_all isdigit u then 0
         else if v < INT_MIN \<or> INT_MAX < v then 0
         else v)"

definition qlist_at :: "'a list \<Rightarrow> nat \<Rightarrow> exn + 'a" where
  "qlist_at xs i = (if i < length xs then Inr (xs ! i) else Inl index_out_of_bounds)"

definition and_then :: "exn + 'a \<Rightarrow> ('a \<Rightarrow> exn + 'b) \<Rightarrow> exn + 'b" where
  "and_then r f = (case r of Inl x \<Rightarrow> Inl x | Inr a \<Rightarrow> f a)"

text \<open>
  The release date block at the end of \<^verbatim>\<open>parse_track_json\<close>, on the record. The
  \<^verbatim>\<open>switch\<close> on the number of parts falls through from 3 to 2 to 1.
\<close>

definition release_date :: "string \<Rightarrow> song \<Rightarrow> exn + song" where
  "release_date date sg =
     (if 0 < length date then
        (let list = split_on CHR ''-'' date;
             n = length list
         in and_then
              (if n = 3
               then and_then (qlist_at list 2)
                      (\<lambda>d. Inr (song_set sg RELEASE_DAY (V_int (qstring_toInt d))))
               else Inr sg)
              (\<lambda>sg1. and_then
                 (if n = 3 \<or> n = 2
                  then and_then (qlist_at list 1)
                         (\<lambda>m. Inr (song_set sg1 RELEASE_MONTH (V_int (qstring_toInt m))))
                  else Inr sg1)
                 (\<lambda>sg2.
                    if n = 3 \<or> n = 2 \<or> n = 1
                    then and_then (qlist_at list 0)
                           (\<lambda>y. Inr (song_set sg2 RELEASE_YEAR (V_int (qstring_toInt y))))
                    else Inr sg2)))
      else Inr sg)"

text \<open>The block under \<^verbatim>\<open>if (response["context"].isObject())\<close>, with its secondary request.\<close>

definition context_block :: "world \<Rightarrow> call_env \<Rightarrow> (string \<times> json) list \<Rightarrow> world" where
  "context_block w env context =
     (let w1 = set_current CONTEXT (V_str (toString (obj_at context ''type''))) w;
          w2 = set_current CONTEXT_URL (V_str (toString (obj_at context ''uri''))) w1;
          w3 = (if isObject (obj_at context ''external_urls'')
                then set_current CONTEXT_EXTERNAL_URL
                       (V_str (toString (obj_at (toObject (obj_at context ''external_urls'')) ''spotify''))) w2
                else w2)
      in if isString (obj_at context ''href'') then
           (let url = toString (obj_at context ''href'');
                ((http_code, header, playlist_response), w4) =
                   execute_command w3 env (m_token w3) url [] None (m_curl_timeout_ms w3) None None
            in if http_code = HTTP_OK
               then set_current PLAYLIST_NAME
                      (V_str (toString (obj_at (doc_object playlist_response) ''name''))) w4
               else w4)
         else w3)"

definition parse_track_json :: "world \<Rightarrow> call_env \<Rightarrow> json \<Rightarrow> exn option \<times> world" where
  "parse_track_json w env response =
     (let trackObj = toObject (value_at response ''item'');
          album = toObject (obj_at trackObj ''album'');
          artists = toArray (obj_at trackObj ''artists'');
          urls = toObject (obj_at trackObj ''external_urls'');
          w1 = w\<lparr>m_current := song_clear\<rparr>;
          w2 = (if isObject (value_at response ''context'')
                then context_block w1 env (toObject (value_at response ''context''))
                else w1);
          tmp = map (\<lambda>artist. toString (obj_at (toObject artist) ''name'')) artists;
          w3 = set_current ARTIST (V_list tmp) w2;
          covers = obj_at album ''images'';
          w4 = (if isArray covers \<and> toArray covers \<noteq> []
                then (let v = hd (toArray covers)
                      in if isObject v \<and> contains (toObject v) ''url''
                         then set_current COVER (V_str (toString (obj_at (toObject v) ''url''))) w3
                         else w3)
                else w3);
          w5 = (if urls \<noteq> [] \<and> isString (obj_at urls ''spotify'')
                then set_current URL (V_str (toString (obj_at urls ''spotify''))) w4
                else w4);
          w6 = set_current TITLE (V_str (toString (obj_at trackObj ''name''))) w5;
          w7 = set_current DURATION (V_int (toInt (obj_at trackObj ''duration_ms''))) w6;
          w8 = set_current ALBUM (V_str (toString (obj_at album ''name''))) w7;
          w9 = set_current EXPLICIT (V_bool (toBool (obj_at trackObj ''explicit''))) w8;
          w10 = set_current DISC_NUMBER (V_int (toInt (obj_at trackObj ''disc_number''))) w9;
          w11 = set_current TRACK_NUMBER (V_int (toInt (obj_at trackObj ''track_number''))) w10;
          date = toString (obj_at album ''release_date'')
      in case release_date date (m_current w11) of
           Inl x \<Rightarrow> (Some x, w11)
         | Inr sg \<Rightarrow> (None, w11\<lparr>m_current := sg\<rparr>))"

subsection \<open>\<^verbatim>\<open>spotify_source::refresh\<close>: one poll cycle\<close>

text \<open>
  Modelled from the spec: \<^verbatim>\<open>begin_refresh()\<close> belongs to the base class
  \<^verbatim>\<open>music_source\<close>, outside the two source files. The spec's poll cycle has no step
  before the token check that writes the playback record or the token; here it changes
  nothing.
\<close>

definition begin_refresh :: "world \<Rightarrow> world" where
  "begin_refresh w = w"

text \<open>
  What one cycle reads: the wall clock at the expiry check, the token endpoint's
  environment, \<^verbatim>\<open>os_gettime_ns()\<close> at the rate-limit check and when a window is armed,
  and the environments of the playback request and of the playlist request.
\<close>

record poll_env =
  epoch_expiry :: int
  token_env :: token_env
  ns_check :: "64 word"
  ns_arm :: "64 word"
  player :: call_env
  playlist :: call_env

text \<open>
  The rate-limit window: \<^verbatim>\<open>m_timout_start\<close> is set and
  \<^verbatim>\<open>os_gettime_ns() - m_timout_start >= m_timeout_length\<close> does not hold (unsigned).
\<close>

definition rate_limited :: "world \<Rightarrow> poll_env \<Rightarrow> bool" where
  "rate_limited w env =
     (m_timout_start w \<noteq> 0 \<and> \<not> m_timeout_length w \<le> ns_check env - m_timout_start w)"

text \<open>The branch for \<^verbatim>\<open>http_code == HTTP_OK\<close>.\<close>

definition on_ok :: "world \<Rightarrow> poll_env \<Rightarrow> (string \<times> json) list \<Rightarrow> exn option \<times> world" where
  "on_ok w env obj =
     (let progress = obj_at obj ''progress_ms'';
          device = obj_at obj ''device'';
          playing = obj_at obj ''is_playing'';
          play_type = obj_at obj ''currently_playing_type''
      in if isString play_type \<and> toString play_type = ''ad''
         then (None, set_current STATUS (V_state state_paused) w)
         else
           (case (if isObject device \<and> isBool playing then
                    (case (if toBool (obj_at (toObject device) ''is_private'')
                           then (None, blog (berr ''Spotify session is private! Can't read track'') w)
                           else (case parse_track_json w (playlist env) (JObject obj) of
                                   (Some x, wp) \<Rightarrow> (Some x, wp)
                                 | (None, wp) \<Rightarrow>
                                     (None, set_current STATUS
                                        (V_state (if toBool playing then state_playing else state_stopped)) wp)))
                     of (Some x, w1) \<Rightarrow> (Some x, w1)
                      | (None, w1) \<Rightarrow> (None, set_current PROGRESS (V_int (toInt progress)) w1))
                  else (None, blog (berr ''Couldn't fetch song data from spotify json: %s'') w))
            of (Some x, w2) \<Rightarrow> (Some x, w2)
             | (None, w2) \<Rightarrow>
                 (None, blog (bdebug ''[Spotify] Finished refresh'')
                          (w2\<lparr>m_last_state := m_current w2 STATUS\<rparr>))))"

text \<open>The last branch: neither 200 nor 204.\<close>

definition on_other :: "world \<Rightarrow> poll_env \<Rightarrow> int \<Rightarrow> string \<Rightarrow> exn option \<times> world" where
  "on_other w env http_code header =
     (if http_code = STATUS_RETRY_AFTER \<and> header \<noteq> [] then
        (case extract_timeout header of
           Inl x \<Rightarrow> (Some x, w\<lparr>m_timeout_length := 0\<rparr>)
         | Inr t \<Rightarrow>
             (let w1 = w\<lparr>m_timeout_length := t\<rparr>;
                  w2 = (if m_timeout_length w1 \<noteq> 0
                        then (blog (bwarn ''Spotify-API Rate limit hit, waiting %i seconds\<newline>'') w1)
                               \<lparr>m_timeout_length := m_timeout_length w1 * SECOND_TO_NS,
                                m_timout_start := ns_arm env\<rparr>
                        else w1)
              in (None, blog (bdebug ''[Spotify] Finished refresh'') w2)))
      else (None, blog (bdebug ''[Spotify] Finished refresh'') w))"

definition refresh :: "world \<Rightarrow> poll_env \<Rightarrow> exn option \<times> world" where
  "refresh w env =
     (if \<not> m_logged_in w then (None, w)
      else
        let w0 = blog (bdebug ''[Spotify] begin refresh'') (begin_refresh w);
            w1 = (if m_token_termination w0 < epoch_expiry env
                  then snd (do_refresh_token (blog (binfo ''Refreshing Spotify token'') w0) (token_env env))
                  else w0)
        in if rate_limited w1 env
           then (None, blog (bdebug ''Waiting for Spotify-API timeout'') w1)
           else
             let w2 = (if m_timout_start w1 \<noteq> 0
                       then blog (binfo ''API timeout of %i seconds is over'')
                              (w1\<lparr>m_timout_start := 0, m_timeout_length := 0\<rparr>)
                       else w1);
                 ((http_code, header, response), w3) =
                    execute_command w2 (player env) (m_token w2) PLAYER_URL [] None
                      (m_curl_timeout_ms w2) None None;
                 w4 = blog (bdebug ''Executed %s command'') w3;
                 obj = (if doc_isObject response then doc_object response else [])
             in if http_code = HTTP_OK then on_ok w4 env obj
                else if http_code = HTTP_NO_CONTENT
                then (None, blog (bdebug ''[Spotify] Finished refresh'') (w4\<lparr>m_current := song_clear\<rparr>))
                else on_other w4 env http_code header)"

subsection \<open>\<^verbatim>\<open>spotify_source::execute_capability\<close>\<close>

datatype capability =
    CAP_NEXT_SONG | CAP_PREV_SONG | CAP_PLAY_PAUSE | CAP_STOP_SONG
  | CAP_VOLUME_UP | CAP_VOLUME_DOWN | CAP_VOLUME_MUTE

text \<open>
  \<^verbatim>\<open>m_current.get<int>(meta::STATUS)\<close>: the stored status as an \<^verbatim>\<open>int\<close>, 0 when unset.
  The values of the \<^verbatim>\<open>play_state\<close> enumerators are declared outside the two source
  files, so the numbering \<open>code\<close> is a parameter.
\<close>

definition get_int :: "(play_state \<Rightarrow> int) \<Rightarrow> song \<Rightarrow> meta \<Rightarrow> int" where
  "get_int code sg k =
     (case sg k of Some (V_state st) \<Rightarrow> code st | Some (V_int n) \<Rightarrow> n | _ \<Rightarrow> 0)"

text \<open>
  The body of the detached thread, run to completion. \<^verbatim>\<open>case CAP_STOP_SONG:\<close> is a label
  inside the \<^verbatim>\<open>if (playing)\<close> block of \<^verbatim>\<open>case CAP_PLAY_PAUSE:\<close>: control enters the
  block there, runs the pause call, leaves the \<^verbatim>\<open>if\<close> statement and reaches
  \<^verbatim>\<open>break\<close>.
\<close>

definition execute_capability ::
  "world \<Rightarrow> call_env \<Rightarrow> (play_state \<Rightarrow> int) \<Rightarrow> capability \<Rightarrow> bool \<times> world" where
  "execute_capability w env code c =
     (let token = m_token w;
          playing = get_int code (m_current w) STATUS;
          tmo = m_curl_timeout_ms w;
          ((http_code, header, response), w1) =
             (case c of
                CAP_PLAY_PAUSE \<Rightarrow>
                  (if playing \<noteq> 0
                   then execute_command w env token PLAYER_PAUSE_URL [] None tmo (Some ''PUT'') None
                   else execute_command w env token PLAYER_PLAY_URL [] None tmo (Some ''PUT'')
                          (Some ''{\"position_ms\": 0}''))
              | CAP_STOP_SONG \<Rightarrow>
                  execute_command w env token PLAYER_PAUSE_URL [] None tmo (Some ''PUT'') None
              | CAP_PREV_SONG \<Rightarrow>
                  execute_command w env token PLAYER_PREVIOUS_URL [] None tmo (Some ''POST'') None
              | CAP_NEXT_SONG \<Rightarrow>
                  execute_command w env token PLAYER_NEXT_URL [] None tmo (Some ''POST'') None
              | _ \<Rightarrow> ((- 1, [], None), w));
          w2 = (if http_code \<noteq> HTTP_NO_CONTENT
                then blog (binfo ''Response: %s'')
                       (blog (binfo ''Spotify controls only work for premium users!'')
                          (blog (binfo ''Couldn't run spotify command! HTTP code: %i'') w1))
                else w1)
      in (True, w2))"

subsection \<open>Notions used to state the properties\<close>

text \<open>
  The state in which \<^verbatim>\<open>load()\<close> leaves a client that was never logged in: the defaults
  of the configuration (empty tokens, expiry 0, request timeout 1000 ms), an empty
  record, no rate-limit window, and the initial values of the three static counters.
\<close>

definition fresh :: world where
  "fresh =
     \<lparr>m_logged_in = False, m_token = [], m_refresh_token = [], m_auth_code = [],
      m_token_termination = 0, m_curl_timeout_ms = 1000, m_creds = [],
      m_timout_start = 0, m_timeout_length = 0, m_current = song_clear,
      m_last_state = None, timeout_start = 0, timeout = 0, timeout_multiplier = 1,
      wire = [], logged = []\<rparr>"

text \<open>
  A poll cycle receives status \<open>code\<close> with header text \<open>hdr\<close> and body \<open>body\<close>
  when the client is logged in, no rate-limit window suppresses the cycle, the transport
  is not inside its backoff cooldown, and curl completes with that reply.
\<close>

definition polled :: "world \<Rightarrow> poll_env \<Rightarrow> int \<Rightarrow> string \<Rightarrow> reply_body \<Rightarrow> bool" where
  "polled w env code hdr body =
     (m_logged_in w \<and> \<not> rate_limited w env \<and> \<not> waiting w (player env) \<and>
      curl (player env) = Curl_ok code hdr body)"

definition is_api :: "request \<Rightarrow> bool" where
  "is_api r = (case r of Api_request _ _ _ _ _ \<Rightarrow> True | Token_request _ _ _ \<Rightarrow> False)"

text \<open>
  A sequence of calls of \<^verbatim>\<open>execute_command\<close>, each with its environment and its
  arguments (bearer token, URL, curl timeout, custom request type, request data), run one
  after the other on the static counters.
\<close>

type_synonym command = "call_env \<times> string \<times> string \<times> int \<times> string option \<times> string option"

fun calls :: "world \<Rightarrow> command list \<Rightarrow> world" where
  "calls w [] = w"
| "calls w ((env, auth_token, url, tmo, ty, data) # cs) =
     calls (snd (execute_command w env auth_token url [] None tmo ty data)) cs"

text \<open>
  \<open>transport_failures w cs = Some n\<close>: in the run of \<open>cs\<close> from \<open>w\<close>, every call that
  is let through the cooldown gate fails in curl, and there are \<open>n\<close> of them (the
  other calls are swallowed by the gate). \<open>None\<close>: some call got a reply.
\<close>

fun transport_failures :: "world \<Rightarrow> command list \<Rightarrow> nat option" where
  "transport_failures w [] = Some 0"
| "transport_failures w ((env, auth_token, url, tmo, ty, data) # cs) =
     (let w' = snd (execute_command w env auth_token url [] None tmo ty data)
      in if waiting w env then transport_failures w' cs
         else (case curl env of
                 Curl_error _ \<Rightarrow> map_option Suc (transport_failures w' cs)
               | Curl_ok _ _ _ \<Rightarrow> None))"

text \<open>
  A text begins with a number as \<^verbatim>\<open>strtol\<close> reads one: after optional white space and
  an optional sign comes a digit.
\<close>

definition begins_number :: "string \<Rightarrow> bool" where
  "begins_number txt =
     (let t = dropWhile isspace txt;
          u = (case t of c # r \<Rightarrow> (if c = CHR ''-'' \<or> c = CHR ''+'' then r else t) | [] \<Rightarrow> t)
      in u \<noteq> [] \<and> isdigit (hd u))"

text \<open>
  A sample client and a sample cycle, used to instantiate the theorems: a logged-in
  client whose token has not yet expired, with a record from an earlier cycle, and a
  cycle at epoch 1700000000 in which curl answers the playback request with \<open>reply\<close>
  (the token endpoint and the playlist request would fail if they were reached).
\<close>

definition listener :: world where
  "listener =
     fresh\<lparr>m_logged_in := True, m_token := ''A1'', m_refresh_token := ''R1'',
           m_token_termination := 1700003600,
           m_current := [TITLE \<mapsto> V_str ''Song'', PROGRESS \<mapsto> V_int 5000,
                         STATUS \<mapsto> V_state state_playing]\<rparr>"

definition cycle :: "curl_result \<Rightarrow> poll_env" where
  "cycle reply =
     \<lparr>epoch_expiry = 1700000000,
      token_env = \<lparr>creds = ''aWQ6c2VjcmV0'', epoch_token = 1700000000, token_curl = Curl_error []\<rparr>,
      ns_check = 5000000000, ns_arm = 5000000001,
      player = \<lparr>epoch_gate = 1700000000, epoch_fail = 1700000000, curl = reply\<rparr>,
      playlist = \<lparr>epoch_gate = 1700000000, epoch_fail = 1700000000, curl = Curl_error []\<rparr>\<rparr>"


text \<open>A record in which no release field is set.\<close>

definition no_release :: "song \<Rightarrow> bool" where
  "no_release sg = (sg RELEASE_DAY = None \<and> sg RELEASE_MONTH = None \<and> sg RELEASE_YEAR = None)"

text \<open>
  Further samples: a token endpoint that refuses the grant; a failed call at epoch 100
  followed at epoch 106 by a call that gets a reply with a non-empty body that does not
  parse, and the failed call at epoch 107 that comes after them; and an outage of three
  calls at epochs 100, 103 and 106, in each of which curl would fail.
\<close>

definition refusal :: token_env where
  "refusal =
     \<lparr>creds = ''aWQ6c2VjcmV0'', epoch_token = 1700000000,
      token_curl = Curl_ok 400 [] (Json (JObject [(''error'', JString ''invalid_grant'')]))\<rparr>"

definition garbled :: "command list" where
  "garbled =
     [(\<lparr>epoch_gate = 100, epoch_fail = 100, curl = Curl_error []\<rparr>, ''A1'', PLAYER_URL, 1000, None, None),
      (\<lparr>epoch_gate = 106, epoch_fail = 106, curl = Curl_ok 502 [] Bad_json\<rparr>, ''A1'', PLAYER_URL, 1000, None, None)]"

definition relapse :: "command list" where
  "relapse =
     [(\<lparr>epoch_gate = 107, epoch_fail = 107, curl = Curl_error []\<rparr>, ''A1'', PLAYER_URL, 1000, None, None)]"

definition outage :: "command list" where
  "outage =
     [(\<lparr>epoch_gate = 100, epoch_fail = 101, curl = Curl_error []\<rparr>, ''A1'', PLAYER_URL, 1000, None, None),
      (\<lparr>epoch_gate = 103, epoch_fail = 103, curl = Curl_error []\<rparr>, ''A1'', PLAYER_URL, 1000, None, None),
      (\<lparr>epoch_gate = 106, epoch_fail = 107, curl = Curl_error []\<rparr>, ''A1'', PLAYER_URL, 1000, None, None)]"

section \<open>Properties\<close>

subsection \<open>Searching and scanning the header text\<close>

lemma find_str_first:
  "\<forall>q<length pre. take (length w) (drop q (pre @ w @ rest)) \<noteq> w \<Longrightarrow>
   find_str w (pre @ w @ rest) = Some (length pre)"
proof (induction pre)
  case Nil
  show ?case
  proof (cases "w @ rest")
    case Nil
    then show ?thesis by simp
  next
    case (Cons a l)
    have "take (length w) (w @ rest) = w" by simp
    then have "take (length w) (a # l) = w" using Cons by metis
    then show ?thesis using Cons by simp
  qed
next
  case (Cons c pre)
  have "take (length w) (drop 0 ((c # pre) @ w @ rest)) \<noteq> w"
    using Cons.prems by blast
  moreover have "\<forall>q<length pre. take (length w) (drop q (pre @ w @ rest)) \<noteq> w"
  proof (intro allI impI)
    fix q assume "q < length pre"
    then have "Suc q < length (c # pre)" by simp
    then have "take (length w) (drop (Suc q) ((c # pre) @ w @ rest)) \<noteq> w"
      using Cons.prems by blast
    then show "take (length w) (drop q (pre @ w @ rest)) \<noteq> w" by simp
  qed
  ultimately show ?case using Cons.IH by simp
qed

lemma find_str_None:
  "find_str w h = None \<Longrightarrow> h \<noteq> pre @ w @ post"
proof (induction h arbitrary: pre)
  case Nil
  then show ?case by (auto split: if_splits)
next
  case (Cons c cs)
  show ?case
  proof (cases pre)
    case Nil
    with Cons.prems show ?thesis by (auto split: if_splits)
  next
    case (Cons d pre')
    from Cons.prems have "find_str w cs = None" by (auto split: if_splits)
    then have "cs \<noteq> pre' @ w @ post" by (rule Cons.IH)
    with Cons show ?thesis by simp
  qed
qed

lemma scan_newline_none:
  "CHR 0x0A \<notin> set (drop e h) \<Longrightarrow> scan_newline h e = Inl out_of_range"
proof (induction h e rule: scan_newline.induct)
  case (1 header e)
  show ?case
  proof (cases "length header \<le> e")
    case True
    then show ?thesis by (simp add: scan_newline.simps[of header e])
  next
    case False
    then have e: "e < length header" by simp
    then have d: "drop e header = header ! e # drop (Suc e) header"
      by (simp add: Cons_nth_drop_Suc)
    with "1.prems" have ne: "header ! e \<noteq> CHR 0x0A" and rest: "CHR 0x0A \<notin> set (drop (Suc e) header)"
      by auto
    from "1.IH"[OF False ne rest] False ne show ?thesis
      by (simp add: scan_newline.simps[of header e])
  qed
qed

lemma scan_newline_found:
  "CHR 0x0A \<notin> set txt \<Longrightarrow> k \<le> length txt \<Longrightarrow>
   scan_newline (a @ txt @ CHR 0x0A # post) (length a + k) = Inr (length a + length txt)"
proof (induction "length txt - k" arbitrary: k)
  case 0
  then have "k = length txt" by simp
  then show ?case
    by (simp add: scan_newline.simps[of _ "length a + length txt"] nth_append)
next
  case (Suc d)
  then have k: "k < length txt" by simp
  then have "txt ! k \<in> set txt" by simp
  with Suc.prems have "txt ! k \<noteq> CHR 0x0A" by metis
  with k have ne: "(a @ txt @ CHR 0x0A # post) ! (length a + k) \<noteq> CHR 0x0A"
    by (simp add: nth_append)
  have "scan_newline (a @ txt @ CHR 0x0A # post) (length a + Suc k) = Inr (length a + length txt)"
    using Suc.hyps(1)[of "Suc k"] Suc.hyps(2) Suc.prems k by simp
  with ne k show ?case
    by (simp add: scan_newline.simps[of _ "length a + k"])
qed

text \<open>
  When the first occurrence of the token is followed by \<open>txt\<close> and a line feed, the
  result is \<^verbatim>\<open>stoi\<close> of \<open>txt\<close>; when no line feed follows it, \<^verbatim>\<open>at\<close> throws.
\<close>

lemma extract_timeout_line:
  assumes first: "\<forall>q<length pre. take (length what) (drop q (pre @ what @ txt @ CHR 0x0A # post)) \<noteq> what"
    and nl: "CHR 0x0A \<notin> set txt"
  shows "extract_timeout (pre @ what @ txt @ CHR 0x0A # post) =
           (case stoi txt of Inl x \<Rightarrow> Inl x | Inr v \<Rightarrow> Inr (word_of_int v))"
proof -
  have f: "find_str what (pre @ what @ txt @ CHR 0x0A # post) = Some (length pre)"
    using first by (rule find_str_first)
  have s: "scan_newline (pre @ what @ txt @ CHR 0x0A # post) (length pre + length what)
             = Inr (length pre + length what + length txt)"
    using scan_newline_found[OF nl, of 0 "pre @ what" post] by simp
  show ?thesis
    by (simp add: extract_timeout_def f s substr_def Let_def)
qed

lemma extract_timeout_no_newline:
  assumes first: "\<forall>q<length pre. take (length what) (drop q (pre @ what @ rest)) \<noteq> what"
    and nl: "CHR 0x0A \<notin> set rest"
  shows "extract_timeout (pre @ what @ rest) = Inl out_of_range"
proof -
  have f: "find_str what (pre @ what @ rest) = Some (length pre)"
    using first by (rule find_str_first)
  have "CHR 0x0A \<notin> set (drop (length pre + length what) (pre @ what @ rest))"
    using nl by simp
  then have s: "scan_newline (pre @ what @ rest) (length pre + length what) = Inl out_of_range"
    by (rule scan_newline_none)
  show ?thesis
    by (simp add: extract_timeout_def f s Let_def)
qed

lemma find_str_Some:
  "find_str w h = Some p \<Longrightarrow> \<exists>post. h = take p h @ w @ post"
proof (induction h arbitrary: p)
  case Nil
  then show ?case by (auto split: if_splits)
next
  case (Cons c cs)
  show ?case
  proof (cases "take (length w) (c # cs) = w")
    case True
    then have "p = 0" using Cons.prems by simp
    moreover have "c # cs = w @ drop (length w) (c # cs)"
      using True by (metis append_take_drop_id)
    ultimately show ?thesis by auto
  next
    case False
    then obtain p' where p': "find_str w cs = Some p'" "p = Suc p'"
      using Cons.prems by auto
    then obtain post where "cs = take p' cs @ w @ post" using Cons.IH by blast
    then show ?thesis using p' by auto
  qed
qed

lemma extract_timeout_absent:
  assumes "\<forall>pre post. header \<noteq> pre @ what @ post"
  shows "extract_timeout header = Inr 0"
proof -
  have "find_str what header = None"
  proof (cases "find_str what header")
    case None
    then show ?thesis .
  next
    case (Some p)
    from find_str_Some[OF Some] assms show ?thesis by blast
  qed
  then show ?thesis by (simp add: extract_timeout_def)
qed

lemma find_str_min:
  "find_str w h = Some p \<Longrightarrow> q < p \<Longrightarrow> take (length w) (drop q h) \<noteq> w"
proof (induction h arbitrary: p q)
  case Nil
  then show ?case by (auto split: if_splits)
next
  case (Cons c cs)
  from Cons.prems have nm: "take (length w) (c # cs) \<noteq> w"
    by (auto split: if_splits)
  then obtain p' where p': "find_str w cs = Some p'" "p = Suc p'"
    using Cons.prems by auto
  show ?case
  proof (cases q)
    case 0
    with nm show ?thesis by simp
  next
    case (Suc q')
    with Cons.prems p' have "q' < p'" by simp
    from Cons.IH[OF p'(1) this] Suc show ?thesis by simp
  qed
qed

text \<open>A string in which the token occurs has a first occurrence.\<close>

lemma first_occurrence:
  assumes "(h :: string) = a @ w @ b"
  shows "\<exists>pre rest. h = pre @ w @ rest \<and>
           (\<forall>q<length pre. take (length w) (drop q (pre @ w @ rest)) \<noteq> w)"
proof -
  from assms have "find_str w h \<noteq> None"
    using find_str_None by blast
  then obtain p where p: "find_str w h = Some p" by blast
  from find_str_Some[OF p] obtain post where e: "h = take p h @ w @ post" by blast
  have "\<forall>q<length (take p h). take (length w) (drop q h) \<noteq> w"
    using find_str_min[OF p] by simp
  then have "\<forall>q<length (take p h). take (length w) (drop q (take p h @ w @ post)) \<noteq> w"
    using e by simp
  with e show ?thesis by blast
qed

lemma stoi_30: "stoi ''30'' = Inr 30"
  by (simp add: stoi_def isspace_def isdigit_def digit_val_def INT_MIN_def INT_MAX_def)

lemma stoi_invalid: "(stoi txt = Inl invalid_argument) = (\<not> begins_number txt)"
  by (simp add: stoi_def begins_number_def Let_def takeWhile_eq_Nil_iff)

subsection \<open>What a poll cycle leaves alone\<close>

text \<open>
  The token endpoint and the transport write neither the playback record nor the
  rate-limit window, and the token endpoint does not touch the static counters.
\<close>

lemma request_token_frame:
  "m_current (snd (request_token w res rq cr rj tmo)) = m_current w"
  "m_timout_start (snd (request_token w res rq cr rj tmo)) = m_timout_start w"
  "m_timeout_length (snd (request_token w res rq cr rj tmo)) = m_timeout_length w"
  "timeout (snd (request_token w res rq cr rj tmo)) = timeout w"
  "timeout_start (snd (request_token w res rq cr rj tmo)) = timeout_start w"
  "timeout_multiplier (snd (request_token w res rq cr rj tmo)) = timeout_multiplier w"
  "m_token (snd (request_token w res rq cr rj tmo)) = m_token w"
  "m_refresh_token (snd (request_token w res rq cr rj tmo)) = m_refresh_token w"
  "m_token_termination (snd (request_token w res rq cr rj tmo)) = m_token_termination w"
  "m_curl_timeout_ms (snd (request_token w res rq cr rj tmo)) = m_curl_timeout_ms w"
  "filter is_api (wire (snd (request_token w res rq cr rj tmo))) = filter is_api (wire w)"
  by (simp_all add: request_token_def blog_def send_def is_api_def Let_def split: curl_result.splits)

lemma do_refresh_token_frame:
  "m_current (snd (do_refresh_token w env)) = m_current w"
  "m_timout_start (snd (do_refresh_token w env)) = m_timout_start w"
  "m_timeout_length (snd (do_refresh_token w env)) = m_timeout_length w"
  "timeout (snd (do_refresh_token w env)) = timeout w"
  "timeout_start (snd (do_refresh_token w env)) = timeout_start w"
  "timeout_multiplier (snd (do_refresh_token w env)) = timeout_multiplier w"
  "m_curl_timeout_ms (snd (do_refresh_token w env)) = m_curl_timeout_ms w"
  "filter is_api (wire (snd (do_refresh_token w env))) = filter is_api (wire w)"
proof -
  let ?w0 = "build_credentials w (creds env)"
  let ?w1 = "if m_refresh_token ?w0 = [] then blog (berr ''Refresh token is empty!'') ?w0 else ?w0"
  let ?rt = "request_token ?w1 (token_curl env)
               (''grant_type=refresh_token&refresh_token='' @ m_refresh_token ?w1)
               (m_creds ?w1) None (m_curl_timeout_ms ?w1)"
  obtain resp w2 where rt: "?rt = (resp, w2)"
    by (cases ?rt) blast
  have s: "snd ?rt = w2"
    unfolding rt by simp
  have f: "m_current ?w1 = m_current w" "m_timout_start ?w1 = m_timout_start w"
    "m_timeout_length ?w1 = m_timeout_length w" "timeout ?w1 = timeout w"
    "timeout_start ?w1 = timeout_start w" "timeout_multiplier ?w1 = timeout_multiplier w"
    "m_curl_timeout_ms ?w1 = m_curl_timeout_ms w" "wire ?w1 = wire w"
    by (simp_all add: build_credentials_def blog_def)
  note rf = request_token_frame[of ?w1 "token_curl env"
        "''grant_type=refresh_token&refresh_token='' @ m_refresh_token ?w1"
        "m_creds ?w1" None "m_curl_timeout_ms ?w1", unfolded s]
  have w2: "m_current w2 = m_current w" "m_timout_start w2 = m_timout_start w"
    "m_timeout_length w2 = m_timeout_length w" "timeout w2 = timeout w"
    "timeout_start w2 = timeout_start w" "timeout_multiplier w2 = timeout_multiplier w"
    "m_curl_timeout_ms w2 = m_curl_timeout_ms w"
    "filter is_api (wire w2) = filter is_api (wire w)"
    using rf(1) f(1) apply (rule trans)
    using rf(2) f(2) apply (rule trans)
    using rf(3) f(3) apply (rule trans)
    using rf(4) f(4) apply (rule trans)
    using rf(5) f(5) apply (rule trans)
    using rf(6) f(6) apply (rule trans)
    using rf(10) f(7) apply (rule trans)
    using rf(11) f(8) apply (simp only:)
    done
  have eq: "do_refresh_token w env =
     (case resp of
        None \<Rightarrow>
          ((False, None),
           (blog (berr ''Couldn't refresh Spotify token, response was null'') w2)\<lparr>m_logged_in := False\<rparr>)
      | Some doc \<Rightarrow>
          (let response_obj = toObject doc;
               token = obj_at response_obj ''access_token'';
               expires = obj_at response_obj ''expires_in'';
               error = obj_at response_obj ''error'';
               refresh_token = obj_at response_obj ''refresh_token'';
               result = (isString token \<and> isDouble expires);
               w3 = (if result
                     then blog (binfo ''Successfully logged in'')
                            (w2\<lparr>m_token := toString token,
                                m_token_termination := epoch_token env + toInt expires\<rparr>)
                     else if isString error
                     then blog (berr ''Received error from spotify: %s'') w2
                     else blog (berr ''Couldn't parse json response'') w2);
               w4 = (if isString refresh_token \<and> toString refresh_token \<noteq> []
                     then (blog (binfo ''Received a new fresh token'') w3)
                            \<lparr>m_refresh_token := toString refresh_token\<rparr>
                     else w3)
           in ((result, Some doc), w4\<lparr>m_logged_in := result\<rparr>)))"
    unfolding do_refresh_token_def Let_def rt by simp
  show "m_current (snd (do_refresh_token w env)) = m_current w"
    "m_timout_start (snd (do_refresh_token w env)) = m_timout_start w"
    "m_timeout_length (snd (do_refresh_token w env)) = m_timeout_length w"
    "timeout (snd (do_refresh_token w env)) = timeout w"
    "timeout_start (snd (do_refresh_token w env)) = timeout_start w"
    "timeout_multiplier (snd (do_refresh_token w env)) = timeout_multiplier w"
    "m_curl_timeout_ms (snd (do_refresh_token w env)) = m_curl_timeout_ms w"
    "filter is_api (wire (snd (do_refresh_token w env))) = filter is_api (wire w)"
    using w2 by (simp_all add: eq Let_def blog_def split: option.splits)
qed

lemma refresh_polled:
  assumes "polled w env code hdr body"
  shows "\<exists>w4. refresh w env =
            (if code = HTTP_OK
             then on_ok w4 env (if doc_isObject (fromJson body) then doc_object (fromJson body) else [])
             else if code = HTTP_NO_CONTENT
             then (None, blog (bdebug ''[Spotify] Finished refresh'') (w4\<lparr>m_current := song_clear\<rparr>))
             else on_other w4 env code hdr)
          \<and> m_current w4 = m_current w \<and> m_timout_start w4 = 0
          \<and> filter is_api (wire w4) =
              filter is_api (wire w) @ [Api_request (m_token w4) PLAYER_URL None None (m_curl_timeout_ms w4)]"
proof -
  let ?w0 = "blog (bdebug ''[Spotify] begin refresh'') (begin_refresh w)"
  let ?w1 = "if m_token_termination ?w0 < epoch_expiry env
             then snd (do_refresh_token (blog (binfo ''Refreshing Spotify token'') ?w0) (token_env env))
             else ?w0"
  let ?w2 = "if m_timout_start ?w1 \<noteq> 0
             then blog (binfo ''API timeout of %i seconds is over'')
                    (?w1\<lparr>m_timout_start := 0, m_timeout_length := 0\<rparr>)
             else ?w1"
  let ?r = "execute_command ?w2 (player env) (m_token ?w2) PLAYER_URL [] None
              (m_curl_timeout_ms ?w2) None None"
  let ?w4 = "blog (bdebug ''Executed %s command'') (snd ?r)"
  from assms have li: "m_logged_in w" and nrl: "\<not> rate_limited w env"
    and nw: "\<not> waiting w (player env)" and c: "curl (player env) = Curl_ok code hdr body"
    by (simp_all add: polled_def)
  have f1: "m_current ?w1 = m_current w" "m_timout_start ?w1 = m_timout_start w"
    "m_timeout_length ?w1 = m_timeout_length w" "timeout ?w1 = timeout w"
    "timeout_start ?w1 = timeout_start w"
    "filter is_api (wire ?w1) = filter is_api (wire w)"
    by (simp_all add: do_refresh_token_frame blog_def begin_refresh_def)
  have rl: "\<not> rate_limited ?w1 env"
    using nrl f1 by (simp add: rate_limited_def)
  have f2: "m_current ?w2 = m_current w" "m_timout_start ?w2 = 0" "timeout ?w2 = timeout w"
    "timeout_start ?w2 = timeout_start w"
    "filter is_api (wire ?w2) = filter is_api (wire w)"
    using f1 by (simp_all add: blog_def)
  have wt: "\<not> waiting ?w2 (player env)"
    using nw f2 by (simp add: waiting_def)
  have r1: "fst ?r = (code, hdr, fromJson body)"
    using wt c by (simp add: execute_command_def Let_def)
  have r2: "m_current (snd ?r) = m_current w" "m_timout_start (snd ?r) = 0"
    "m_token (snd ?r) = m_token ?w2" "m_curl_timeout_ms (snd ?r) = m_curl_timeout_ms ?w2"
    "filter is_api (wire (snd ?r)) =
       filter is_api (wire w) @ [Api_request (m_token ?w2) PLAYER_URL None None (m_curl_timeout_ms ?w2)]"
    using wt c f2
    by (simp_all add: execute_command_def Let_def blog_def send_def is_api_def postfields_def)
  have eq: "refresh w env =
            (if code = HTTP_OK
             then on_ok ?w4 env (if doc_isObject (fromJson body) then doc_object (fromJson body) else [])
             else if code = HTTP_NO_CONTENT
             then (None, blog (bdebug ''[Spotify] Finished refresh'') (?w4\<lparr>m_current := song_clear\<rparr>))
             else on_other ?w4 env code hdr)"
    using li rl r1 by (simp add: refresh_def Let_def case_prod_beta)
  have p: "m_current ?w4 = m_current w" "m_timout_start ?w4 = 0"
    "filter is_api (wire ?w4) =
       filter is_api (wire w) @ [Api_request (m_token ?w4) PLAYER_URL None None (m_curl_timeout_ms ?w4)]"
    using r2 by (simp_all add: blog_def)
  from eq p show ?thesis by blast
qed


lemma execute_command_frame:
  "m_current (snd (execute_command w env a u rh rj t ty d)) = m_current w"
  "m_timout_start (snd (execute_command w env a u rh rj t ty d)) = m_timout_start w"
  "m_timeout_length (snd (execute_command w env a u rh rj t ty d)) = m_timeout_length w"
  "m_token (snd (execute_command w env a u rh rj t ty d)) = m_token w"
  "m_curl_timeout_ms (snd (execute_command w env a u rh rj t ty d)) = m_curl_timeout_ms w"
  by (simp_all add: execute_command_def Let_def blog_def send_def split: curl_result.splits)

lemma on_other_current: "m_current (snd (on_other w env c h)) = m_current w"
  by (simp add: on_other_def blog_def Let_def split: sum.splits)


lemma refresh_unanswered:
  assumes "\<not> m_logged_in w \<or> rate_limited w env \<or> waiting w (player env) \<or>
           (\<exists>h. curl (player env) = Curl_error h)"
  shows "m_current (snd (refresh w env)) = m_current w"
proof (cases "m_logged_in w")
  case False
  then show ?thesis by (simp add: refresh_def)
next
  case li: True
  let ?w0 = "blog (bdebug ''[Spotify] begin refresh'') (begin_refresh w)"
  let ?w1 = "if m_token_termination ?w0 < epoch_expiry env
             then snd (do_refresh_token (blog (binfo ''Refreshing Spotify token'') ?w0) (token_env env))
             else ?w0"
  let ?w2 = "if m_timout_start ?w1 \<noteq> 0
             then blog (binfo ''API timeout of %i seconds is over'')
                    (?w1\<lparr>m_timout_start := 0, m_timeout_length := 0\<rparr>)
             else ?w1"
  let ?r = "execute_command ?w2 (player env) (m_token ?w2) PLAYER_URL [] None
              (m_curl_timeout_ms ?w2) None None"
  have f1: "m_current ?w1 = m_current w" "m_timout_start ?w1 = m_timout_start w"
    "m_timeout_length ?w1 = m_timeout_length w" "timeout ?w1 = timeout w"
    "timeout_start ?w1 = timeout_start w"
    by (simp_all add: do_refresh_token_frame blog_def begin_refresh_def)
  have rl: "rate_limited ?w1 env = rate_limited w env"
    using f1 by (simp add: rate_limited_def)
  show ?thesis
  proof (cases "rate_limited w env")
    case True
    then have "refresh w env = (None, blog (bdebug ''Waiting for Spotify-API timeout'') ?w1)"
      using li rl by (simp add: refresh_def Let_def)
    then have "m_current (snd (refresh w env)) = m_current ?w1"
      by (simp add: blog_def)
    then show ?thesis using f1 by simp
  next
    case nrl: False
    have f2: "m_current ?w2 = m_current w" "timeout ?w2 = timeout w"
      "timeout_start ?w2 = timeout_start w"
      using f1 by (simp_all add: blog_def)
    have wt: "waiting ?w2 (player env) = waiting w (player env)"
      using f2 by (simp add: waiting_def)
    from assms li nrl have "waiting w (player env) \<or> (\<exists>h. curl (player env) = Curl_error h)"
      by blast
    then have code: "fst (fst ?r) = 0 \<or> fst (fst ?r) = - 1"
      using wt by (auto simp: execute_command_def Let_def)
    have cur: "m_current (snd ?r) = m_current w"
      using f2(1) by (simp only: execute_command_frame)
    from code have n: "fst (fst ?r) \<noteq> HTTP_OK" "fst (fst ?r) \<noteq> HTTP_NO_CONTENT"
      by (auto simp: HTTP_OK_def HTTP_NO_CONTENT_def)
    have "refresh w env =
            on_other (blog (bdebug ''Executed %s command'') (snd ?r)) env (fst (fst ?r)) (fst (snd (fst ?r)))"
      using li nrl rl n by (simp add: refresh_def Let_def case_prod_beta)
    then have "m_current (snd (refresh w env)) = m_current (snd ?r)"
      by (simp add: on_other_current blog_def)
    then show ?thesis using cur by simp
  qed
qed

lemma zero_not_armed:
  assumes p: "polled w env 429 hdr body" and z: "extract_timeout hdr = Inr 0"
  shows "fst (refresh w env) = None \<and> m_timout_start (snd (refresh w env)) = 0 \<and>
         (\<forall>env'. \<not> rate_limited (snd (refresh w env)) env')"
proof -
  from refresh_polled[OF p] obtain w4 where
    eq: "refresh w env = on_other w4 env 429 hdr" and st: "m_timout_start w4 = 0"
    by (auto simp: HTTP_OK_def HTTP_NO_CONTENT_def)
  have "fst (on_other w4 env 429 hdr) = None \<and> m_timout_start (snd (on_other w4 env 429 hdr)) = 0"
    using z st by (simp add: on_other_def Let_def blog_def)
  then show ?thesis by (simp add: eq rate_limited_def)
qed


lemma polled_listener: "polled listener (cycle (Curl_ok c h b)) c h b"
  by (simp add: polled_def listener_def cycle_def fresh_def rate_limited_def waiting_def)


subsection \<open>Advertisements\<close>

text \<open>
  Claim C6. For every HTTP 200 payload whose \<^verbatim>\<open>currently_playing_type\<close> is the string
  \<^verbatim>\<open>"ad"\<close>, whatever \<^verbatim>\<open>is_playing\<close> and the other members are, the cycle sets the status
  to paused and writes nothing else of the record: progress keeps its value, the record
  is not cleared and rebuilt, no exception escapes, and the only player request of the
  cycle is the playback request itself (no playlist lookup).
\<close>

theorem ad_forces_paused:
  assumes p: "polled w env 200 hdr (Json (JObject obj))"
    and ad: "map_of obj ''currently_playing_type'' = Some (JString ''ad'')"
  shows "fst (refresh w env) = None \<and>
         m_current (snd (refresh w env)) = (m_current w)(STATUS \<mapsto> V_state state_paused) \<and>
         m_current (snd (refresh w env)) PROGRESS = m_current w PROGRESS \<and>
         filter is_api (wire (snd (refresh w env))) =
           filter is_api (wire w) @
             [Api_request (m_token (snd (refresh w env))) PLAYER_URL None None
                (m_curl_timeout_ms (snd (refresh w env)))]"
proof -
  from refresh_polled[OF p] obtain w4 where
    eq: "refresh w env = on_ok w4 env obj" and cur: "m_current w4 = m_current w"
    and wr: "filter is_api (wire w4) =
       filter is_api (wire w) @ [Api_request (m_token w4) PLAYER_URL None None (m_curl_timeout_ms w4)]"
    by (auto simp: HTTP_OK_def fromJson_def doc_isObject_def doc_object_def isObject_def toObject_def)
  have ok: "on_ok w4 env obj = (None, set_current STATUS (V_state state_paused) w4)"
    using ad by (simp add: on_ok_def obj_at_def isString_def toString_def)
  show ?thesis
    using cur wr by (simp add: eq ok set_current_def song_set_def)
qed


theorem ad_forces_paused_witness:
  "polled listener
     (cycle (Curl_ok 200 [] (Json (JObject [(''currently_playing_type'', JString ''ad''),
        (''is_playing'', JBool True), (''progress_ms'', JInt 9000)]))))
     200 [] (Json (JObject [(''currently_playing_type'', JString ''ad''),
        (''is_playing'', JBool True), (''progress_ms'', JInt 9000)])) \<and>
   m_current (snd (refresh listener
     (cycle (Curl_ok 200 [] (Json (JObject [(''currently_playing_type'', JString ''ad''),
        (''is_playing'', JBool True), (''progress_ms'', JInt 9000)])))))) STATUS
     = Some (V_state state_paused) \<and>
   m_current (snd (refresh listener
     (cycle (Curl_ok 200 [] (Json (JObject [(''currently_playing_type'', JString ''ad''),
        (''is_playing'', JBool True), (''progress_ms'', JInt 9000)])))))) PROGRESS
     = Some (V_int 5000)"
proof -
  let ?obj = "[(''currently_playing_type'', JString ''ad''),
        (''is_playing'', JBool True), (''progress_ms'', JInt 9000)]"
  have p: "polled listener (cycle (Curl_ok 200 [] (Json (JObject ?obj)))) 200 [] (Json (JObject ?obj))"
    by (rule polled_listener)
  have m: "map_of ?obj ''currently_playing_type'' = Some (JString ''ad'')"
    by simp
  have c: "m_current listener PROGRESS = Some (V_int 5000)"
    by (simp add: listener_def)
  from ad_forces_paused[OF p m] p c show ?thesis
    by simp
qed


subsection \<open>No content\<close>

text \<open>
  Claim C8. A cycle whose playback request returns HTTP 204 leaves the record fully
  cleared: every field is unset, which is the spec's no-session state. No other status
  than 200 and 204 writes the record, and neither does a cycle that gets no reply at
  all (not logged in, inside the rate-limit window, inside the transport cooldown, or a
  curl failure).
\<close>

theorem no_content_clears:
  "(polled w env 204 hdr body \<longrightarrow>
      fst (refresh w env) = None \<and> m_current (snd (refresh w env)) = song_clear \<and>
      (\<forall>k. m_current (snd (refresh w env)) k = None)) \<and>
   (polled w env code hdr body \<and> code \<noteq> 200 \<and> code \<noteq> 204 \<longrightarrow>
      m_current (snd (refresh w env)) = m_current w) \<and>
   (\<not> m_logged_in w \<or> rate_limited w env \<or> waiting w (player env) \<or>
      (\<exists>h. curl (player env) = Curl_error h) \<longrightarrow>
      m_current (snd (refresh w env)) = m_current w)"
proof (intro conjI impI)
  assume p: "polled w env 204 hdr body"
  from refresh_polled[OF p] obtain w4 where
    eq: "refresh w env = (None, blog (bdebug ''[Spotify] Finished refresh'') (w4\<lparr>m_current := song_clear\<rparr>))"
    by (auto simp: HTTP_OK_def HTTP_NO_CONTENT_def)
  show "fst (refresh w env) = None" by (simp add: eq)
  show "m_current (snd (refresh w env)) = song_clear" by (simp add: eq blog_def)
  show "\<forall>k. m_current (snd (refresh w env)) k = None" by (simp add: eq blog_def song_clear_def)
next
  assume a: "polled w env code hdr body \<and> code \<noteq> 200 \<and> code \<noteq> 204"
  then have p: "polled w env code hdr body" by simp
  from refresh_polled[OF p] a obtain w4 where
    eq: "refresh w env = on_other w4 env code hdr" and cur: "m_current w4 = m_current w"
    by (auto simp: HTTP_OK_def HTTP_NO_CONTENT_def)
  show "m_current (snd (refresh w env)) = m_current w"
    by (simp add: eq on_other_current cur)
next
  assume "\<not> m_logged_in w \<or> rate_limited w env \<or> waiting w (player env) \<or>
      (\<exists>h. curl (player env) = Curl_error h)"
  then show "m_current (snd (refresh w env)) = m_current w"
    by (rule refresh_unanswered)
qed


theorem no_content_clears_witness:
  "polled listener (cycle (Curl_ok 204 [] Empty_body)) 204 [] Empty_body \<and>
   m_current (snd (refresh listener (cycle (Curl_ok 204 [] Empty_body)))) = song_clear \<and>
   polled listener (cycle (Curl_ok 500 [] Bad_json)) 500 [] Bad_json \<and>
   m_current (snd (refresh listener (cycle (Curl_ok 500 [] Bad_json)))) = m_current listener \<and>
   (\<exists>h. curl (player (cycle (Curl_error []))) = Curl_error h) \<and>
   m_current (snd (refresh listener (cycle (Curl_error [])))) = m_current listener"
proof -
  have p1: "polled listener (cycle (Curl_ok 204 [] Empty_body)) 204 [] Empty_body"
    by (rule polled_listener)
  have p2: "polled listener (cycle (Curl_ok 500 [] Bad_json)) 500 [] Bad_json"
    by (rule polled_listener)
  have p3: "\<exists>h. curl (player (cycle (Curl_error []))) = Curl_error h"
    by (simp add: cycle_def)
  have a: "m_current (snd (refresh listener (cycle (Curl_ok 204 [] Empty_body)))) = song_clear"
    using no_content_clears[of listener "cycle (Curl_ok 204 [] Empty_body)" "[]" Empty_body 204] p1
    by blast
  have b: "m_current (snd (refresh listener (cycle (Curl_ok 500 [] Bad_json)))) = m_current listener"
    using no_content_clears[of listener "cycle (Curl_ok 500 [] Bad_json)" "[]" Bad_json 500] p2
    by simp
  have c: "m_current (snd (refresh listener (cycle (Curl_error [])))) = m_current listener"
    using no_content_clears[of listener "cycle (Curl_error [])" "[]" Empty_body 204] p3
    by blast
  from p1 p2 p3 a b c show ?thesis by blast
qed

subsection \<open>Private sessions\<close>






subsection \<open>Retry-After\<close>

text \<open>
  Claim C5, as the code has it. \<^verbatim>\<open>find\<close> takes the first occurrence of the token
  anywhere in the header text, not the first line that starts with it. A header text in
  which the first occurrence of the token is the one of \<^verbatim>\<open>"Retry-After: 30\n"\<close>
  (whatever stands before and after that line) yields 30. Every
  header text that does not contain the token \<^verbatim>\<open>"Retry-After: "\<close> yields 0. And in the
  poller a result of 0 arms nothing: after a cycle that received the rate-limit status
  with such a header no exception has escaped, \<^verbatim>\<open>m_timout_start\<close> is 0 and no later
  cycle is suppressed by the rate-limit window.
\<close>

theorem retry_after_extraction:
  "((\<forall>q<length pre. take (length what) (drop q (pre @ ''Retry-After: 30\<newline>'' @ post)) \<noteq> what) \<longrightarrow>
      extract_timeout (pre @ ''Retry-After: 30\<newline>'' @ post) = Inr 30) \<and>
   ((\<forall>pre post. header \<noteq> pre @ ''Retry-After: '' @ post) \<longrightarrow> extract_timeout header = Inr 0) \<and>
   (polled w env 429 hdr body \<and> extract_timeout hdr = Inr 0 \<longrightarrow>
      fst (refresh w env) = None \<and> m_timout_start (snd (refresh w env)) = 0 \<and>
      (\<forall>env'. \<not> rate_limited (snd (refresh w env)) env'))"
proof (intro conjI impI)
  assume first: "\<forall>q<length pre. take (length what) (drop q (pre @ ''Retry-After: 30\<newline>'' @ post)) \<noteq> what"
  have e: "pre @ ''Retry-After: 30\<newline>'' @ post = pre @ what @ ''30'' @ CHR 0x0A # post"
    by (simp add: what_def)
  have "extract_timeout (pre @ what @ ''30'' @ CHR 0x0A # post) =
          (case stoi ''30'' of Inl x \<Rightarrow> Inl x | Inr v \<Rightarrow> Inr (word_of_int v))"
    using first unfolding e by (intro extract_timeout_line) simp_all
  then show "extract_timeout (pre @ ''Retry-After: 30\<newline>'' @ post) = Inr 30"
    unfolding e by (simp add: stoi_30)
next
  assume "\<forall>pre post. header \<noteq> pre @ ''Retry-After: '' @ post"
  then have "\<forall>pre post. header \<noteq> pre @ what @ post" by (simp add: what_def)
  then show "extract_timeout header = Inr 0" by (rule extract_timeout_absent)
next
  assume a: "polled w env 429 hdr body \<and> extract_timeout hdr = Inr 0"
  from zero_not_armed[of w env hdr body] a
  show "fst (refresh w env) = None" "m_timout_start (snd (refresh w env)) = 0"
    "\<forall>env'. \<not> rate_limited (snd (refresh w env)) env'"
    by blast+
qed

lemma no_token_short: "\<forall>pre post. ''Content-Length: 0\<newline>'' \<noteq> pre @ ''Retry-After: '' @ post"
proof (intro allI notI)
  fix pre post assume "''Content-Length: 0\<newline>'' = pre @ ''Retry-After: '' @ post"
  then have "CHR ''R'' \<in> set ''Content-Length: 0\<newline>''"
    by (metis in_set_conv_decomp append_Cons append_assoc)
  then show False by simp
qed

theorem retry_after_extraction_witness:
  "extract_timeout (''Date: now\<newline>'' @ ''Retry-After: 30\<newline>'' @ ''Server: x\<newline>'') = Inr 30 \<and>
   extract_timeout ''Content-Length: 0\<newline>'' = Inr 0 \<and>
   polled listener (cycle (Curl_ok 429 ''Content-Length: 0\<newline>'' Empty_body))
     429 ''Content-Length: 0\<newline>'' Empty_body \<and>
   m_timout_start (snd (refresh listener
     (cycle (Curl_ok 429 ''Content-Length: 0\<newline>'' Empty_body)))) = 0"
proof -
  have f: "\<forall>q<length ''Date: now\<newline>''.
             take (length what) (drop q (''Date: now\<newline>'' @ ''Retry-After: 30\<newline>'' @ ''Server: x\<newline>'')) \<noteq> what"
    by (simp add: what_def All_less_Suc)
  have a: "extract_timeout (''Date: now\<newline>'' @ ''Retry-After: 30\<newline>'' @ ''Server: x\<newline>'') = Inr 30"
    using retry_after_extraction[of "''Date: now\<newline>''" "''Server: x\<newline>''"] f by blast
  have b: "extract_timeout ''Content-Length: 0\<newline>'' = Inr 0"
    using retry_after_extraction[of _ _ "''Content-Length: 0\<newline>''"] no_token_short by blast
  have p: "polled listener (cycle (Curl_ok 429 ''Content-Length: 0\<newline>'' Empty_body))
     429 ''Content-Length: 0\<newline>'' Empty_body"
    by (rule polled_listener)
  have c: "m_timout_start (snd (refresh listener
     (cycle (Curl_ok 429 ''Content-Length: 0\<newline>'' Empty_body)))) = 0"
    using retry_after_extraction[of _ _ _ listener
        "cycle (Curl_ok 429 ''Content-Length: 0\<newline>'' Empty_body)" "''Content-Length: 0\<newline>''" Empty_body]
      p b by blast
  from a b p c show ?thesis by blast
qed


text \<open>
  The claim as stated (every header text containing \<^verbatim>\<open>"Retry-After: 30\n"\<close> yields 30)
  fails: in a header whose line before it is \<^verbatim>\<open>X-Retry-After: 7\<close> the token occurs
  first inside that line, and 7 is returned.
\<close>

theorem retry_after_counterexample:
  "''X-Retry-After: 7\<newline>Retry-After: 30\<newline>'' = ''X-Retry-After: 7\<newline>'' @ ''Retry-After: 30\<newline>'' @ [] \<and>
   extract_timeout ''X-Retry-After: 7\<newline>Retry-After: 30\<newline>'' = Inr 7"
  by (simp add: extract_timeout_def scan_newline.simps what_def stoi_def substr_def isspace_def
        isdigit_def digit_val_def INT_MIN_def INT_MAX_def)

subsection \<open>The precondition of \<^verbatim>\<open>extract_timeout\<close>\<close>

text \<open>
  Claim C9, as the code has it. Every header text in which the token occurs has a first
  occurrence of it, and for that first occurrence: when no line feed follows it,
  \<^verbatim>\<open>at\<close> throws \<^verbatim>\<open>std::out_of_range\<close>; when a line feed follows but the text up to it does
  not begin with a number as \<^verbatim>\<open>strtol\<close> reads one (optional white space, an optional
  sign, then a digit), \<^verbatim>\<open>stoi\<close> throws \<^verbatim>\<open>std::invalid_argument\<close>; in neither case is
  zero returned. Whenever a value is returned, a line feed does follow the token, the
  text up to it begins with such a number, the number fits an \<^verbatim>\<open>int\<close>, and the value is
  that number converted to \<^verbatim>\<open>uint64_t\<close>.
\<close>

theorem extract_timeout_precondition:
  "(header = a @ what @ b \<longrightarrow>
      (\<exists>pre rest. header = pre @ what @ rest \<and>
         (\<forall>q<length pre. take (length what) (drop q (pre @ what @ rest)) \<noteq> what))) \<and>
   ((\<forall>q<length pre. take (length what) (drop q (pre @ what @ rest)) \<noteq> what) \<longrightarrow>
      (CHR 0x0A \<notin> set rest \<longrightarrow> extract_timeout (pre @ what @ rest) = Inl out_of_range) \<and>
      (\<forall>txt post. rest = txt @ CHR 0x0A # post \<and> CHR 0x0A \<notin> set txt \<and> \<not> begins_number txt \<longrightarrow>
         extract_timeout (pre @ what @ rest) = Inl invalid_argument) \<and>
      (\<forall>t. extract_timeout (pre @ what @ rest) = Inr t \<longrightarrow>
         (\<exists>txt post v. rest = txt @ CHR 0x0A # post \<and> CHR 0x0A \<notin> set txt \<and>
            begins_number txt \<and> stoi txt = Inr v \<and> t = word_of_int v)))"
proof (intro conjI impI)
  assume "header = a @ what @ b"
  then show "\<exists>pre rest. header = pre @ what @ rest \<and>
         (\<forall>q<length pre. take (length what) (drop q (pre @ what @ rest)) \<noteq> what)"
    by (rule first_occurrence)
next
  assume first: "\<forall>q<length pre. take (length what) (drop q (pre @ what @ rest)) \<noteq> what"
  assume "CHR 0x0A \<notin> set rest"
  with first show "extract_timeout (pre @ what @ rest) = Inl out_of_range"
    by (rule extract_timeout_no_newline)
next
  assume first: "\<forall>q<length pre. take (length what) (drop q (pre @ what @ rest)) \<noteq> what"
  show "\<forall>txt post. rest = txt @ CHR 0x0A # post \<and> CHR 0x0A \<notin> set txt \<and> \<not> begins_number txt \<longrightarrow>
         extract_timeout (pre @ what @ rest) = Inl invalid_argument"
  proof (intro allI impI)
    fix tx post
    assume a: "rest = tx @ CHR 0x0A # post \<and> CHR 0x0A \<notin> set tx \<and> \<not> begins_number tx"
    then have r: "rest = tx @ CHR 0x0A # post" and nl: "CHR 0x0A \<notin> set tx"
      and nb: "stoi tx = Inl invalid_argument"
      by (simp_all add: stoi_invalid)
    from first have "\<forall>q<length pre. take (length what) (drop q (pre @ what @ tx @ CHR 0x0A # post)) \<noteq> what"
      unfolding r .
    from extract_timeout_line[OF this nl] nb
    show "extract_timeout (pre @ what @ rest) = Inl invalid_argument"
      unfolding r by simp
  qed
next
  assume first: "\<forall>q<length pre. take (length what) (drop q (pre @ what @ rest)) \<noteq> what"
  show "\<forall>t. extract_timeout (pre @ what @ rest) = Inr t \<longrightarrow>
         (\<exists>txt post v. rest = txt @ CHR 0x0A # post \<and> CHR 0x0A \<notin> set txt \<and>
            begins_number txt \<and> stoi txt = Inr v \<and> t = word_of_int v)"
  proof (intro allI impI)
    fix t
    assume ok: "extract_timeout (pre @ what @ rest) = Inr t"
    have "CHR 0x0A \<in> set rest"
    proof (rule ccontr)
      assume "CHR 0x0A \<notin> set rest"
      with first have "extract_timeout (pre @ what @ rest) = Inl out_of_range"
        by (rule extract_timeout_no_newline)
      with ok show False by simp
    qed
    then obtain tx post where r: "rest = tx @ CHR 0x0A # post" and nl: "CHR 0x0A \<notin> set tx"
      by (auto dest: split_list_first)
    from first have "\<forall>q<length pre. take (length what) (drop q (pre @ what @ tx @ CHR 0x0A # post)) \<noteq> what"
      unfolding r .
    from extract_timeout_line[OF this nl] ok
    have "(case stoi tx of Inl x \<Rightarrow> Inl x | Inr v \<Rightarrow> Inr (word_of_int v)) = (Inr t :: exn + 64 word)"
      unfolding r by simp
    then obtain v where v: "stoi tx = Inr v" "t = word_of_int v"
      by (auto split: sum.splits)
    then have "stoi tx \<noteq> Inl invalid_argument" by simp
    then have "begins_number tx" by (simp add: stoi_invalid)
    with r nl v
    show "\<exists>tx post v. rest = tx @ CHR 0x0A # post \<and> CHR 0x0A \<notin> set tx \<and>
               begins_number tx \<and> stoi tx = Inr v \<and> t = word_of_int v"
      by blast
  qed
qed

theorem extract_timeout_precondition_witness:
  "extract_timeout (''Date: now\<newline>'' @ what @ ''30'') = Inl out_of_range \<and>
   extract_timeout (''Date: now\<newline>'' @ what @ ''soon\<newline>'') = Inl invalid_argument \<and>
   extract_timeout (''Date: now\<newline>'' @ what @ ''30\<newline>'') = Inr 30 \<and>
   (\<exists>txt post v. ''30\<newline>'' = txt @ CHR 0x0A # post \<and> CHR 0x0A \<notin> set txt \<and>
               begins_number txt \<and> stoi txt = Inr v \<and> (30 :: 64 word) = word_of_int v)"
proof -
  have f1: "\<forall>q<length ''Date: now\<newline>''.
             take (length what) (drop q (''Date: now\<newline>'' @ what @ ''30'')) \<noteq> what"
    by (simp add: what_def All_less_Suc)
  have f2: "\<forall>q<length ''Date: now\<newline>''.
             take (length what) (drop q (''Date: now\<newline>'' @ what @ ''soon\<newline>'')) \<noteq> what"
    by (simp add: what_def All_less_Suc)
  have f3: "\<forall>q<length ''Date: now\<newline>''.
             take (length what) (drop q (''Date: now\<newline>'' @ what @ ''30\<newline>'')) \<noteq> what"
    by (simp add: what_def All_less_Suc)
  note t1 = extract_timeout_precondition[where pre = "''Date: now\<newline>''" and rest = "''30''",
      THEN conjunct2, THEN mp, OF f1]
  note t2 = extract_timeout_precondition[where pre = "''Date: now\<newline>''" and rest = "''soon\<newline>''",
      THEN conjunct2, THEN mp, OF f2]
  note t3 = extract_timeout_precondition[where pre = "''Date: now\<newline>''" and rest = "''30\<newline>''",
      THEN conjunct2, THEN mp, OF f3]
  have a: "extract_timeout (''Date: now\<newline>'' @ what @ ''30'') = Inl out_of_range"
    using t1 by simp
  have nb: "\<not> begins_number ''soon''"
    by (simp add: begins_number_def isspace_def isdigit_def)
  from t2
  have "''soon\<newline>'' = ''soon'' @ CHR 0x0A # [] \<and> CHR 0x0A \<notin> set ''soon'' \<and> \<not> begins_number ''soon'' \<longrightarrow>
          extract_timeout (''Date: now\<newline>'' @ what @ ''soon\<newline>'') = Inl invalid_argument"
    by blast
  then have b: "extract_timeout (''Date: now\<newline>'' @ what @ ''soon\<newline>'') = Inl invalid_argument"
    using nb by simp
  have c: "extract_timeout (''Date: now\<newline>'' @ what @ ''30\<newline>'') = Inr 30"
    by (simp add: extract_timeout_def scan_newline.simps what_def stoi_def substr_def isspace_def
        isdigit_def digit_val_def INT_MIN_def INT_MAX_def)
  from t3 c
  have d: "\<exists>txt post v. ''30\<newline>'' = txt @ CHR 0x0A # post \<and> CHR 0x0A \<notin> set txt \<and>
               begins_number txt \<and> stoi txt = Inr v \<and> (30 :: 64 word) = word_of_int v"
    by blast
  from a b c d show ?thesis by blast
qed

text \<open>
  The claim as stated (a value is returned only if the text after the token begins with
  digits) fails: with two blanks after the colon the text up to the line feed is
  \<open>'' 30''\<close>, which begins with a blank, and 30 is returned.
\<close>

theorem extract_timeout_counterexample:
  "extract_timeout ''Retry-After:  30\<newline>'' = Inr 30 \<and>
   ''Retry-After:  30\<newline>'' = what @ '' 30'' @ ''\<newline>'' \<and>
   \<not> isdigit (hd '' 30'')"
  by (simp add: extract_timeout_def scan_newline.simps what_def stoi_def substr_def isspace_def
        isdigit_def digit_val_def INT_MIN_def INT_MAX_def)


subsection \<open>Transport backoff\<close>

text \<open>
  The counters are 32-bit; \<open>5 * N\<close> below is the product in that type, and it is the
  integer \<open>5 * N\<close> as long as that fits (for \<open>N\<close> up to 429496729).
\<close>

lemma sint_of_nat32: "k < 2 ^ 31 \<Longrightarrow> sint (of_nat k :: 32 word) = int k"
proof -
  assume k: "k < 2 ^ 31"
  have "(int k + 2 ^ 31) mod 2 ^ 32 = int k + 2 ^ 31"
    using k by (intro mod_pos_pos_trivial) simp_all
  then show ?thesis
    using int_word_sint[where 'a = 32, of "int k"] by simp
qed

lemma execute_command_waiting:
  "waiting w env \<Longrightarrow> snd (execute_command w env a u rh rj t ty d) = w"
  by (simp add: execute_command_def)

lemma execute_command_failure:
  assumes "\<not> waiting w env" and "curl env = Curl_error h"
  shows "timeout (snd (execute_command w env a u rh rj t ty d)) = 5 * timeout_multiplier w"
    and "timeout_multiplier (snd (execute_command w env a u rh rj t ty d)) = timeout_multiplier w + 1"
    and "timeout_start (snd (execute_command w env a u rh rj t ty d)) = word_of_int (epoch_fail env)"
  using assms by (simp_all add: execute_command_def Let_def blog_def send_def)

lemma execute_command_reset:
  assumes "\<not> waiting w env" and "curl env = Curl_ok code hdr (Json doc)"
  shows "timeout_multiplier (snd (execute_command w env a u rh rj t ty d)) = 1"
    and "timeout (snd (execute_command w env a u rh rj t ty d)) = 0"
    and "timeout_start (snd (execute_command w env a u rh rj t ty d)) = 0"
  using assms by (simp_all add: execute_command_def Let_def blog_def send_def fromJson_def)

lemma calls_no_failures: "transport_failures w cs = Some 0 \<Longrightarrow> calls w cs = w"
proof (induction cs arbitrary: w)
  case Nil
  then show ?case by simp
next
  case (Cons c cs)
  obtain env a u t ty d where c: "c = (env, a, u, t, ty, d)"
    by (cases c) auto
  show ?case
  proof (cases "waiting w env")
    case True
    with Cons.prems c have "transport_failures w cs = Some 0"
      by (simp add: execute_command_waiting)
    then have "calls w cs = w" by (rule Cons.IH)
    with True c show ?thesis by (simp add: execute_command_waiting)
  next
    case False
    with Cons.prems c show ?thesis
      by (simp add: Let_def split: curl_result.splits)
  qed
qed

lemma failures_counted:
  "transport_failures w cs = Some n \<Longrightarrow>
   timeout_multiplier (calls w cs) = timeout_multiplier w + of_nat n \<and>
   (0 < n \<longrightarrow> timeout (calls w cs) = 5 * (timeout_multiplier w + of_nat n - 1))"
proof (induction cs arbitrary: w n)
  case Nil
  then show ?case by simp
next
  case (Cons c cs)
  obtain env a u t ty d where c: "c = (env, a, u, t, ty, d)"
    by (cases c) auto
  let ?w' = "snd (execute_command w env a u [] None t ty d)"
  show ?case
  proof (cases "waiting w env")
    case True
    then have w': "?w' = w" by (rule execute_command_waiting)
    with Cons.prems c True have "transport_failures w cs = Some n" by simp
    from Cons.IH[OF this] c w' show ?thesis by simp
  next
    case False
    with Cons.prems c obtain h m where h: "curl env = Curl_error h"
      and m: "transport_failures ?w' cs = Some m" and n: "n = Suc m"
      by (auto simp: Let_def split: curl_result.splits)
    note f = execute_command_failure[OF False h, of a u "[]" None t ty d]
    from Cons.IH[OF m] have ih1: "timeout_multiplier (calls ?w' cs) = timeout_multiplier ?w' + of_nat m"
      and ih2: "0 < m \<longrightarrow> timeout (calls ?w' cs) = 5 * (timeout_multiplier ?w' + of_nat m - 1)"
      by simp_all
    have a1: "timeout_multiplier (calls w (c # cs)) = timeout_multiplier w + of_nat n"
      using ih1 f(2) c n by simp
    have a2: "timeout (calls w (c # cs)) = 5 * (timeout_multiplier w + of_nat n - 1)"
    proof (cases "m = 0")
      case True
      with m have "calls ?w' cs = ?w'" by (simp add: calls_no_failures)
      with f(1) c n True show ?thesis by simp
    next
      case False
      with ih2 f(2) c n show ?thesis by simp
    qed
    from a1 a2 show ?thesis by simp
  qed
qed

lemma execute_command_garbled:
  assumes "\<not> waiting w env" and "curl env = Curl_ok code hdr Bad_json"
  shows "timeout_multiplier (snd (execute_command w env a u rh rj t ty d)) = timeout_multiplier w"
  using assms by (simp add: execute_command_def Let_def blog_def send_def fromJson_def body_empty_def)

lemma calls_append: "calls w (xs @ ys) = calls (calls w xs) ys"
  by (induction xs arbitrary: w) auto

lemma failures_last:
  "transport_failures w (cs @ (e, a, u, t, ty, d) # sw) = Some n \<Longrightarrow> \<not> waiting (calls w cs) e \<Longrightarrow>
   \<exists>h. curl e = Curl_error h"
proof (induction cs arbitrary: w n)
  case Nil
  then show ?case by (simp add: Let_def split: curl_result.splits)
next
  case (Cons c cs)
  obtain e' a' u' t' ty' d' where c: "c = (e', a', u', t', ty', d')"
    by (cases c) auto
  let ?w' = "snd (execute_command w e' a' u' [] None t' ty' d')"
  from Cons.prems(1) c obtain n' where
    "transport_failures ?w' (cs @ (e, a, u, t, ty, d) # sw) = Some n'"
    by (auto simp: Let_def split: if_splits curl_result.splits)
  moreover from Cons.prems(2) c have "\<not> waiting (calls ?w' cs) e" by simp
  ultimately show ?case by (rule Cons.IH)
qed

text \<open>
  Claim C4, as the code has it. The count starts from a state whose multiplier is 1 (the
  initial state, and the state after any parsed reply). From there, after a run of calls
  in which \<open>N \<ge> 1\<close> calls passed the gate and all of them failed in curl (calls
  swallowed by the gate change nothing), the scheduled cooldown \<^verbatim>\<open>timeout\<close> is
  \<open>5 * N\<close> seconds and the multiplier is \<open>N + 1\<close>; the next call is swallowed
  exactly while fewer than \<open>5 * N\<close> seconds have passed since \<^verbatim>\<open>timeout_start\<close>, which
  is the epoch read at the last failure (whatever calls the gate swallowed after it). Any call that is let through and gets a reply
  that parses sets the multiplier to 1 and clears the cooldown, so that a failure right
  after it schedules 5 seconds and leaves the multiplier at 2. A reply with a non-empty
  body that does not parse leaves the multiplier as it is.
\<close>

theorem backoff_schedule:
  "(timeout_multiplier w = 1 \<and> transport_failures w cs = Some N \<and> 1 \<le> N \<longrightarrow>
      timeout (calls w cs) = 5 * of_nat N \<and>
      timeout_multiplier (calls w cs) = of_nat N + 1 \<and>
      (5 * N < 2 ^ 31 \<longrightarrow>
         sint (timeout (calls w cs)) = 5 * int N \<and>
         (\<forall>e. waiting (calls w cs) e =
                (epoch_gate e - sint (timeout_start (calls w cs)) < 5 * int N)))) \<and>
   (\<not> waiting v env \<and> curl env = Curl_ok code hdr (Json doc) \<longrightarrow>
      timeout_multiplier (snd (execute_command v env a u rh rj t ty d)) = 1 \<and>
      timeout (snd (execute_command v env a u rh rj t ty d)) = 0 \<and>
      (\<forall>(env2 :: call_env) h a2 u2 rh2 rj2 t2 ty2 d2. curl env2 = Curl_error h \<longrightarrow>
         timeout (snd (execute_command (snd (execute_command v env a u rh rj t ty d))
                    env2 a2 u2 rh2 rj2 t2 ty2 d2)) = 5 \<and>
         timeout_multiplier (snd (execute_command (snd (execute_command v env a u rh rj t ty d))
                    env2 a2 u2 rh2 rj2 t2 ty2 d2)) = 2)) \<and>
   (\<not> waiting x envb \<and> curl envb = Curl_ok codeb hdrb Bad_json \<longrightarrow>
      timeout_multiplier (snd (execute_command x envb ab ub rhb rjb tb tyb db)) = timeout_multiplier x) \<and>
   (transport_failures y (ds @ (ec, ac, uc, tc, tyc, dc) # sw) = Some M \<and>
      \<not> waiting (calls y ds) ec \<and>
      transport_failures (calls y (ds @ [(ec, ac, uc, tc, tyc, dc)])) sw = Some 0 \<longrightarrow>
      timeout_start (calls y (ds @ (ec, ac, uc, tc, tyc, dc) # sw)) = word_of_int (epoch_fail ec))"
proof (intro conjI impI allI)
  assume "\<not> waiting x envb \<and> curl envb = Curl_ok codeb hdrb Bad_json"
  then show "timeout_multiplier (snd (execute_command x envb ab ub rhb rjb tb tyb db)) = timeout_multiplier x"
    by (simp add: execute_command_garbled)
next
  assume a: "transport_failures y (ds @ (ec, ac, uc, tc, tyc, dc) # sw) = Some M \<and>
      \<not> waiting (calls y ds) ec \<and>
      transport_failures (calls y (ds @ [(ec, ac, uc, tc, tyc, dc)])) sw = Some 0"
  then obtain h where h: "curl ec = Curl_error h"
    using failures_last by blast
  from a have nw: "\<not> waiting (calls y ds) ec" by simp
  from a have "calls (calls y (ds @ [(ec, ac, uc, tc, tyc, dc)])) sw = calls y (ds @ [(ec, ac, uc, tc, tyc, dc)])"
    by (simp add: calls_no_failures)
  then have "calls y (ds @ (ec, ac, uc, tc, tyc, dc) # sw) = calls y (ds @ [(ec, ac, uc, tc, tyc, dc)])"
    using calls_append[of y "ds @ [(ec, ac, uc, tc, tyc, dc)]" sw] by simp
  then show "timeout_start (calls y (ds @ (ec, ac, uc, tc, tyc, dc) # sw)) = word_of_int (epoch_fail ec)"
    using execute_command_failure(3)[OF nw h] by (simp add: calls_append)
next
  assume a: "timeout_multiplier w = 1 \<and> transport_failures w cs = Some N \<and> 1 \<le> N"
  from failures_counted[of w cs N] a
  show t: "timeout (calls w cs) = 5 * of_nat N"
    and "timeout_multiplier (calls w cs) = of_nat N + 1"
    by simp_all
  assume b: "5 * N < 2 ^ 31"
  have "timeout (calls w cs) = of_nat (5 * N)" using t by simp
  then have "sint (timeout (calls w cs)) = int (5 * N)"
    using b by (simp only: sint_of_nat32)
  then show s: "sint (timeout (calls w cs)) = 5 * int N" by simp
  fix e
  from a have "0 < 5 * int N" by simp
  with s show "waiting (calls w cs) e = (epoch_gate e - sint (timeout_start (calls w cs)) < 5 * int N)"
    by (auto simp: waiting_def)
next
  assume a: "\<not> waiting v env \<and> curl env = Curl_ok code hdr (Json doc)"
  let ?w' = "snd (execute_command v env a u rh rj t ty d)"
  from a have nw: "\<not> waiting v env" and c: "curl env = Curl_ok code hdr (Json doc)" by simp_all
  note r = execute_command_reset[OF nw c, of a u rh rj t ty d]
  show "timeout_multiplier ?w' = 1" "timeout ?w' = 0" by (rule r)+
  fix env2 :: call_env and h a2 u2 rh2 rj2 t2 ty2 d2
  assume e: "curl env2 = Curl_error h"
  have nw2: "\<not> waiting ?w' env2" using r(2) by (simp add: waiting_def)
  note f = execute_command_failure[OF nw2 e, of a2 u2 rh2 rj2 t2 ty2 d2]
  show "timeout (snd (execute_command ?w' env2 a2 u2 rh2 rj2 t2 ty2 d2)) = 5"
    using f(1) r(1) by simp
  show "timeout_multiplier (snd (execute_command ?w' env2 a2 u2 rh2 rj2 t2 ty2 d2)) = 2"
    using f(2) r(1) by simp
qed


theorem backoff_schedule_witness:
  "timeout_multiplier fresh = 1 \<and> transport_failures fresh outage = Some 2 \<and> (1 :: nat) \<le> 2 \<and>
   5 * (2 :: nat) < 2 ^ 31 \<and>
   sint (timeout (calls fresh outage)) = 10 \<and>
   timeout_multiplier (calls fresh outage) = 3 \<and>
   \<not> waiting (calls fresh outage) (player (cycle (Curl_ok 200 [] (Json (JObject []))))) \<and>
   curl (player (cycle (Curl_ok 200 [] (Json (JObject []))))) = Curl_ok 200 [] (Json (JObject [])) \<and>
   timeout_multiplier (snd (execute_command (calls fresh outage)
      (player (cycle (Curl_ok 200 [] (Json (JObject []))))) ''A1'' PLAYER_URL [] None 1000 None None)) = 1 \<and>
   \<not> waiting (calls fresh outage) (player (cycle (Curl_ok 502 [] Bad_json))) \<and>
   curl (player (cycle (Curl_ok 502 [] Bad_json))) = Curl_ok 502 [] Bad_json \<and>
   timeout_multiplier (snd (execute_command (calls fresh outage)
      (player (cycle (Curl_ok 502 [] Bad_json))) ''A1'' PLAYER_URL [] None 1000 None None)) = 3 \<and>
   \<not> waiting (calls fresh garbled) (fst (hd relapse)) \<and>
   transport_failures fresh (garbled @ relapse) = None \<and>
   transport_failures (calls fresh garbled) ([] @ relapse) = Some 1 \<and>
   timeout_start (calls (calls fresh garbled) ([] @ relapse)) = 107"
proof -
  let ?env = "player (cycle (Curl_ok 200 [] (Json (JObject []))))"
  let ?bad = "player (cycle (Curl_ok 502 [] Bad_json))"
  let ?e4 = "\<lparr>epoch_gate = 107, epoch_fail = 107, curl = Curl_error []\<rparr>"
  have m: "timeout_multiplier fresh = 1"
    by (simp add: fresh_def)
  have f: "transport_failures fresh outage = Some 2"
    by (simp add: outage_def fresh_def execute_command_def waiting_def Let_def blog_def send_def)
  have n: "(1 :: nat) \<le> 2" "5 * (2 :: nat) < 2 ^ 31"
    by simp_all
  have g: "calls fresh garbled =
             fresh\<lparr>timeout_start := 100, timeout := 0, timeout_multiplier := 2,
                   wire := wire (calls fresh garbled), logged := logged (calls fresh garbled)\<rparr>"
    by (simp add: garbled_def fresh_def execute_command_def waiting_def Let_def blog_def send_def
        fromJson_def body_empty_def)
  have r: "relapse = [(?e4, ''A1'', PLAYER_URL, 1000, None, None)]"
    by (simp add: relapse_def)
  have nw4: "\<not> waiting (calls fresh garbled) ?e4"
    by (subst g) (simp add: waiting_def)
  have f4: "transport_failures (calls fresh garbled) ([] @ [(?e4, ''A1'', PLAYER_URL, 1000, None, None)]) = Some 1"
    using nw4 by (simp add: Let_def)
  have fn: "transport_failures fresh (garbled @ relapse) = None"
    by (simp add: garbled_def relapse_def fresh_def execute_command_def waiting_def Let_def
        blog_def send_def fromJson_def body_empty_def)
  note t = backoff_schedule[where w = fresh and cs = outage and N = 2 and v = "calls fresh outage"
      and env = ?env and code = 200 and hdr = "[]" and doc = "JObject []" and a = "''A1''"
      and u = PLAYER_URL and rh = "[]" and rj = None and t = 1000 and ty = None and d = None
      and sw = "[]" and x = "calls fresh outage" and envb = ?bad and codeb = 502 and hdrb = "[]"
      and ab = "''A1''" and ub = PLAYER_URL and rhb = "[]" and rjb = None and tb = 1000
      and tyb = None and db = None
      and y = "calls fresh garbled" and ds = "[]" and ec = ?e4 and ac = "''A1''"
      and uc = PLAYER_URL and tc = 1000 and tyc = None and dc = None and M = 1]
  from t m f n have s: "sint (timeout (calls fresh outage)) = 10"
    "timeout_multiplier (calls fresh outage) = 3"
    "\<forall>e. waiting (calls fresh outage) e =
           (epoch_gate e - sint (timeout_start (calls fresh outage)) < 5 * int 2)"
    by simp_all
  have st: "sint (timeout_start (calls fresh outage)) = 107"
    by (simp add: outage_def fresh_def execute_command_def waiting_def Let_def blog_def send_def)
  have nw: "\<not> waiting (calls fresh outage) ?env" "\<not> waiting (calls fresh outage) ?bad"
    using s(3) st by (simp_all add: cycle_def)
  have c: "curl ?env = Curl_ok 200 [] (Json (JObject []))" "curl ?bad = Curl_ok 502 [] Bad_json"
    by (simp_all add: cycle_def)
  from t nw c have r1: "timeout_multiplier (snd (execute_command (calls fresh outage) ?env
      ''A1'' PLAYER_URL [] None 1000 None None)) = 1"
    by blast
  from t nw c s(2) have r2: "timeout_multiplier (snd (execute_command (calls fresh outage) ?bad
      ''A1'' PLAYER_URL [] None 1000 None None)) = 3"
    by simp
  have nw4': "\<not> waiting (calls (calls fresh garbled) []) ?e4"
    using nw4 by simp
  have z: "transport_failures
             (calls (calls fresh garbled) ([] @ [(?e4, ''A1'', PLAYER_URL, 1000, None, None)])) [] = Some 0"
    by simp
  from t[THEN conjunct2, THEN conjunct2, THEN conjunct2, THEN mp, OF conjI[OF f4 conjI[OF nw4' z]]]
  have r3: "timeout_start (calls (calls fresh garbled) ([] @ [(?e4, ''A1'', PLAYER_URL, 1000, None, None)])) =
              word_of_int (epoch_fail ?e4)" .
  have ac: "\<not> waiting (calls fresh garbled) (fst (hd relapse))"
    "transport_failures (calls fresh garbled) ([] @ relapse) = Some 1"
    "timeout_start (calls (calls fresh garbled) ([] @ relapse)) = 107"
    using nw4 f4 r3 unfolding r by simp_all
  from m f n s(1,2) nw c r1 r2 ac fn show ?thesis by blast
qed

text \<open>
  The claim as stated (after \<open>N\<close> consecutive transport failures the cooldown is
  \<open>5 * N\<close>) fails when the failures are counted from a reply that did not reset the
  multiplier: after a failure and then a reply whose non-empty body does not parse, the
  first transport failure schedules 10 seconds, not 5.
\<close>

theorem backoff_counterexample:
  "transport_failures fresh garbled = None \<and>
   transport_failures (calls fresh garbled) relapse = Some 1 \<and>
   sint (timeout (calls (calls fresh garbled) relapse)) = 10"
  by (simp add: garbled_def relapse_def fresh_def execute_command_def waiting_def Let_def
      blog_def send_def fromJson_def body_empty_def)

subsection \<open>Token refresh\<close>


lemma request_token_fields:
  "m_token (snd (request_token w res rq cr rj tmo)) = m_token w"
  "m_refresh_token (snd (request_token w res rq cr rj tmo)) = m_refresh_token w"
  "m_token_termination (snd (request_token w res rq cr rj tmo)) = m_token_termination w"
  by (simp_all add: request_token_def blog_def send_def Let_def split: curl_result.splits)







text \<open>
  The refresh-token block of \<^verbatim>\<open>do_refresh_token\<close> stands after the success/failure
  branch and runs on both paths, so a failure with a document that carries a non-empty
  \<^verbatim>\<open>refresh_token\<close> keeps the access token and replaces the stored refresh token
  \<open>''R1''\<close> by \<open>''R2''\<close>. The sibling \<^verbatim>\<open>new_token\<close> writes the refresh token only
  inside its success branch: when it fails, all three fields are as before.
\<close>

lemma failed_refresh_adopts_refresh_token:
  "\<not> fst (fst (do_refresh_token listener
       (refusal\<lparr>token_curl := Curl_ok 400 [] (Json (JObject
          [(''error'', JString ''invalid_grant''), (''refresh_token'', JString ''R2'')]))\<rparr>))) \<and>
   m_token (snd (do_refresh_token listener
       (refusal\<lparr>token_curl := Curl_ok 400 [] (Json (JObject
          [(''error'', JString ''invalid_grant''), (''refresh_token'', JString ''R2'')]))\<rparr>))) = m_token listener \<and>
   m_refresh_token listener = ''R1'' \<and>
   m_refresh_token (snd (do_refresh_token listener
       (refusal\<lparr>token_curl := Curl_ok 400 [] (Json (JObject
          [(''error'', JString ''invalid_grant''), (''refresh_token'', JString ''R2'')]))\<rparr>))) = ''R2''"
  by (simp add: do_refresh_token_def request_token_def build_credentials_def blog_def send_def
      listener_def fresh_def refusal_def fromJson_def toObject_def obj_at_def isString_def
      isDouble_def toString_def Let_def)

lemma new_token_failure:
  assumes "\<not> fst (fst (new_token w env))"
  shows "m_token (snd (new_token w env)) = m_token w \<and>
         m_refresh_token (snd (new_token w env)) = m_refresh_token w \<and>
         m_token_termination (snd (new_token w env)) = m_token_termination w"
proof -
  let ?w0 = "build_credentials w (creds env)"
  let ?rq = "''grant_type=authorization_code&code='' @ m_auth_code ?w0 @ ''&redirect_uri='' @ REDIRECT_URI"
  let ?rt = "request_token ?w0 (token_curl env) ?rq (m_creds ?w0) None (m_curl_timeout_ms ?w0)"
  obtain resp w1 where rt: "?rt = (resp, w1)"
    by (cases ?rt) blast
  have s: "snd ?rt = w1"
    unfolding rt by simp
  have f: "m_token ?w0 = m_token w" "m_refresh_token ?w0 = m_refresh_token w"
    "m_token_termination ?w0 = m_token_termination w"
    by (simp_all add: build_credentials_def)
  note rf = request_token_fields[of ?w0 "token_curl env" ?rq "m_creds ?w0" None
      "m_curl_timeout_ms ?w0", unfolded s]
  have w1: "m_token w1 = m_token w" "m_refresh_token w1 = m_refresh_token w"
    "m_token_termination w1 = m_token_termination w"
    using rf(1) f(1) apply (rule trans)
    using rf(2) f(2) apply (rule trans)
    using rf(3) f(3) apply (rule trans)
    done
  have eq: "new_token w env =
     (if doc_isObject resp then
        (let response_obj = doc_object resp;
             token = obj_at response_obj ''access_token'';
             refresh = obj_at response_obj ''refresh_token'';
             expires = obj_at response_obj ''expires_in'';
             result = (isString token \<and> isString refresh \<and> isDouble expires);
             w2 = (if result
                   then w1\<lparr>m_token := toString token,
                           m_refresh_token := toString refresh,
                           m_token_termination := epoch_token env + toInt expires\<rparr>
                   else blog (berr ''Couldn't parse json response!'') w1)
         in ((result, resp), w2\<lparr>m_logged_in := result\<rparr>))
      else ((False, None), w1\<lparr>m_logged_in := False\<rparr>))"
    unfolding new_token_def Let_def rt by simp
  show ?thesis
    using assms w1 by (auto simp: eq Let_def blog_def split: if_splits)
qed

text \<open>
  Claim C1 does not hold of the code. With an empty stored refresh token
  \<^verbatim>\<open>do_refresh_token\<close> logs "Refresh token is empty!" and goes on: the request
  \<^verbatim>\<open>grant_type=refresh_token&refresh_token=\<close> is sent to the token endpoint, and what
  happens next is decided by the reply; a reply carrying an access token is adopted and
  success is reported.
\<close>

theorem empty_refresh_token_still_requests:
  "m_refresh_token (listener\<lparr>m_refresh_token := []\<rparr>) = [] \<and>
   wire (listener\<lparr>m_refresh_token := []\<rparr>) = [] \<and>
   wire (snd (do_refresh_token (listener\<lparr>m_refresh_token := []\<rparr>) refusal)) =
     [Token_request ''aWQ6c2VjcmV0'' ''grant_type=refresh_token&refresh_token='' 1000] \<and>
   fst (fst (do_refresh_token (listener\<lparr>m_refresh_token := []\<rparr>)
     (refusal\<lparr>token_curl := Curl_ok 200 [] (Json (JObject
        [(''access_token'', JString ''A2''), (''expires_in'', JInt 3600)]))\<rparr>))) \<and>
   m_token (snd (do_refresh_token (listener\<lparr>m_refresh_token := []\<rparr>)
     (refusal\<lparr>token_curl := Curl_ok 200 [] (Json (JObject
        [(''access_token'', JString ''A2''), (''expires_in'', JInt 3600)]))\<rparr>))) = ''A2'' \<and>
   m_token (listener\<lparr>m_refresh_token := []\<rparr>) = ''A1''"
  by (simp add: do_refresh_token_def request_token_def build_credentials_def blog_def send_def
      listener_def fresh_def refusal_def fromJson_def toObject_def obj_at_def isString_def
      isDouble_def toString_def toInt_def INT_MIN_def INT_MAX_def Let_def)

subsection \<open>Release dates\<close>

lemma split_on_no_sep: "sep \<notin> set a \<Longrightarrow> split_on sep a = [a]"
  by (induction a) auto

lemma split_on_append:
  "sep \<notin> set a \<Longrightarrow> split_on sep (a @ sep # rest) = a # split_on sep rest"
  by (induction a) auto

lemma split_on_nonempty: "split_on sep s \<noteq> []"
  by (induction s) (auto split: list.splits)

lemma release_date_total: "\<exists>sg'. release_date date sg = Inr sg'"
proof (cases "0 < length date")
  case False
  then show ?thesis by (simp add: release_date_def)
next
  case True
  let ?l = "split_on CHR ''-'' date"
  consider "length ?l = 3" | "length ?l = 2" | "length ?l = 1" | "length ?l \<noteq> 3 \<and> length ?l \<noteq> 2 \<and> length ?l \<noteq> 1"
    by blast
  then show ?thesis
  proof cases
    case 1
    then show ?thesis using True by (simp add: release_date_def Let_def and_then_def qlist_at_def)
  next
    case 2
    then show ?thesis using True by (simp add: release_date_def Let_def and_then_def qlist_at_def)
  next
    case 3
    then show ?thesis using True by (simp add: release_date_def Let_def and_then_def qlist_at_def)
  next
    case 4
    then show ?thesis using True by (simp add: release_date_def Let_def and_then_def qlist_at_def)
  qed
qed

lemma release_date_3:
  assumes "CHR ''-'' \<notin> set y" "CHR ''-'' \<notin> set m" "CHR ''-'' \<notin> set d"
  shows "release_date (y @ ''-'' @ m @ ''-'' @ d) sg =
           Inr (sg(RELEASE_DAY \<mapsto> V_int (qstring_toInt d),
                   RELEASE_MONTH \<mapsto> V_int (qstring_toInt m),
                   RELEASE_YEAR \<mapsto> V_int (qstring_toInt y)))"
proof -
  have "split_on CHR ''-'' (y @ ''-'' @ m @ ''-'' @ d) = [y, m, d]"
    using assms by (simp add: split_on_append split_on_no_sep)
  then show ?thesis
    by (simp add: release_date_def Let_def and_then_def qlist_at_def song_set_def)
qed

lemma release_date_2:
  assumes "CHR ''-'' \<notin> set y" "CHR ''-'' \<notin> set m"
  shows "release_date (y @ ''-'' @ m) sg =
           Inr (sg(RELEASE_MONTH \<mapsto> V_int (qstring_toInt m),
                   RELEASE_YEAR \<mapsto> V_int (qstring_toInt y)))"
proof -
  have "split_on CHR ''-'' (y @ ''-'' @ m) = [y, m]"
    using assms by (simp add: split_on_append split_on_no_sep)
  then show ?thesis
    by (simp add: release_date_def Let_def and_then_def qlist_at_def song_set_def)
qed

lemma release_date_1:
  assumes "CHR ''-'' \<notin> set y" "y \<noteq> []"
  shows "release_date y sg = Inr (sg(RELEASE_YEAR \<mapsto> V_int (qstring_toInt y)))"
proof -
  have "split_on CHR ''-'' y = [y]"
    using assms by (simp add: split_on_no_sep)
  then show ?thesis
    using assms(2) by (simp add: release_date_def Let_def and_then_def qlist_at_def song_set_def)
qed

lemma toInt_samples:
  "qstring_toInt ''2021'' = 2021" "qstring_toInt ''05'' = 5" "qstring_toInt ''09'' = 9"
  by (simp_all add: qstring_toInt_def isspace_def isdigit_def digit_val_def INT_MIN_def INT_MAX_def)


lemma no_release_set:
  "no_release (m_current w) \<Longrightarrow> k \<noteq> RELEASE_DAY \<Longrightarrow> k \<noteq> RELEASE_MONTH \<Longrightarrow> k \<noteq> RELEASE_YEAR \<Longrightarrow>
   no_release (m_current (set_current k v w))"
  by (simp add: no_release_def set_current_def song_set_def)

lemma no_release_context:
  "no_release (m_current w) \<Longrightarrow> no_release (m_current (context_block w env ctx))"
  by (simp add: context_block_def Let_def case_prod_beta no_release_set execute_command_frame
      no_release_def set_current_def song_set_def)

lemma parse_track_json_release:
  "fst (parse_track_json w env response) = None \<and>
   (\<exists>sg0. no_release sg0 \<and>
     release_date (toString (obj_at (toObject (obj_at (toObject (value_at response ''item'')) ''album''))
        ''release_date'')) sg0 = Inr (m_current (snd (parse_track_json w env response))))"
proof -
  let ?trackObj = "toObject (value_at response ''item'')"
  let ?album = "toObject (obj_at ?trackObj ''album'')"
  let ?urls = "toObject (obj_at ?trackObj ''external_urls'')"
  let ?w1 = "w\<lparr>m_current := song_clear\<rparr>"
  let ?w2 = "if isObject (value_at response ''context'')
             then context_block ?w1 env (toObject (value_at response ''context''))
             else ?w1"
  let ?w3 = "set_current ARTIST
     (V_list (map (\<lambda>artist. toString (obj_at (toObject artist) ''name'')) (toArray (obj_at ?trackObj ''artists'')))) ?w2"
  let ?covers = "obj_at ?album ''images''"
  let ?w4 = "if isArray ?covers \<and> toArray ?covers \<noteq> []
             then (if isObject (hd (toArray ?covers)) \<and> contains (toObject (hd (toArray ?covers))) ''url''
                   then set_current COVER
                          (V_str (toString (obj_at (toObject (hd (toArray ?covers))) ''url''))) ?w3
                   else ?w3)
             else ?w3"
  let ?w5 = "if ?urls \<noteq> [] \<and> isString (obj_at ?urls ''spotify'')
             then set_current URL (V_str (toString (obj_at ?urls ''spotify''))) ?w4
             else ?w4"
  let ?w6 = "set_current TITLE (V_str (toString (obj_at ?trackObj ''name''))) ?w5"
  let ?w7 = "set_current DURATION (V_int (toInt (obj_at ?trackObj ''duration_ms''))) ?w6"
  let ?w8 = "set_current ALBUM (V_str (toString (obj_at ?album ''name''))) ?w7"
  let ?w9 = "set_current EXPLICIT (V_bool (toBool (obj_at ?trackObj ''explicit''))) ?w8"
  let ?w10 = "set_current DISC_NUMBER (V_int (toInt (obj_at ?trackObj ''disc_number''))) ?w9"
  let ?w11 = "set_current TRACK_NUMBER (V_int (toInt (obj_at ?trackObj ''track_number''))) ?w10"
  let ?date = "toString (obj_at ?album ''release_date'')"
  have n1: "no_release (m_current ?w1)"
    by (simp add: no_release_def song_clear_def)
  then have n2: "no_release (m_current ?w2)"
    by (simp add: no_release_context)
  then have n3: "no_release (m_current ?w3)" by (simp add: no_release_set)
  then have n4: "no_release (m_current ?w4)" by (simp add: no_release_set Let_def)
  then have n5: "no_release (m_current ?w5)" by (simp add: no_release_set)
  then have n6: "no_release (m_current ?w6)" by (rule no_release_set) simp_all
  then have n7: "no_release (m_current ?w7)" by (rule no_release_set) simp_all
  then have n8: "no_release (m_current ?w8)" by (rule no_release_set) simp_all
  then have n9: "no_release (m_current ?w9)" by (rule no_release_set) simp_all
  then have n10: "no_release (m_current ?w10)" by (rule no_release_set) simp_all
  then have n11: "no_release (m_current ?w11)" by (rule no_release_set) simp_all
  obtain sg where sg: "release_date ?date (m_current ?w11) = Inr sg"
    using release_date_total by blast
  have "parse_track_json w env response = (None, ?w11\<lparr>m_current := sg\<rparr>)"
    by (simp only: parse_track_json_def Let_def sg sum.case)
  then have "fst (parse_track_json w env response) = None"
    "m_current (snd (parse_track_json w env response)) = sg" by simp_all
  with sg n11 show ?thesis by metis
qed

text \<open>
  Claim C7. A date of three parts separated by \<^verbatim>\<open>-\<close> sets day, month and year from its
  third, second and first part; a date of two parts sets month and year; a date of one
  non-empty part sets the year only; the empty string sets nothing. The dates of the
  spec come out as stated. No date makes the block fail (no list access is out of
  bounds), no exception escapes \<^verbatim>\<open>parse_track_json\<close>, and the record it leaves is the
  result of the block on a record without release fields, so those fields are set by
  the release date alone.
\<close>

theorem release_date_parts:
  "(CHR ''-'' \<notin> set y \<and> CHR ''-'' \<notin> set m \<and> CHR ''-'' \<notin> set d \<longrightarrow>
      release_date (y @ ''-'' @ m @ ''-'' @ d) sg =
        Inr (sg(RELEASE_DAY \<mapsto> V_int (qstring_toInt d),
                RELEASE_MONTH \<mapsto> V_int (qstring_toInt m),
                RELEASE_YEAR \<mapsto> V_int (qstring_toInt y)))) \<and>
   (CHR ''-'' \<notin> set y \<and> CHR ''-'' \<notin> set m \<longrightarrow>
      release_date (y @ ''-'' @ m) sg =
        Inr (sg(RELEASE_MONTH \<mapsto> V_int (qstring_toInt m),
                RELEASE_YEAR \<mapsto> V_int (qstring_toInt y)))) \<and>
   (CHR ''-'' \<notin> set y \<and> y \<noteq> [] \<longrightarrow>
      release_date y sg = Inr (sg(RELEASE_YEAR \<mapsto> V_int (qstring_toInt y)))) \<and>
   release_date [] sg = Inr sg \<and>
   release_date ''2021-05-09'' sg =
     Inr (sg(RELEASE_DAY \<mapsto> V_int 9, RELEASE_MONTH \<mapsto> V_int 5, RELEASE_YEAR \<mapsto> V_int 2021)) \<and>
   release_date ''2021-05'' sg =
     Inr (sg(RELEASE_MONTH \<mapsto> V_int 5, RELEASE_YEAR \<mapsto> V_int 2021)) \<and>
   release_date ''2021'' sg = Inr (sg(RELEASE_YEAR \<mapsto> V_int 2021)) \<and>
   (\<exists>sg'. release_date date sg = Inr sg') \<and>
   fst (parse_track_json w env response) = None \<and>
   (\<exists>sg0. sg0 RELEASE_DAY = None \<and> sg0 RELEASE_MONTH = None \<and> sg0 RELEASE_YEAR = None \<and>
      release_date (toString (obj_at (toObject (obj_at (toObject (value_at response ''item'')) ''album''))
        ''release_date'')) sg0 = Inr (m_current (snd (parse_track_json w env response))))"
proof -
  have a: "release_date ''2021-05-09'' sg =
     Inr (sg(RELEASE_DAY \<mapsto> V_int 9, RELEASE_MONTH \<mapsto> V_int 5, RELEASE_YEAR \<mapsto> V_int 2021))"
    using release_date_3[of "''2021''" "''05''" "''09''" sg] by (simp add: toInt_samples)
  have b: "release_date ''2021-05'' sg =
     Inr (sg(RELEASE_MONTH \<mapsto> V_int 5, RELEASE_YEAR \<mapsto> V_int 2021))"
    using release_date_2[of "''2021''" "''05''" sg] by (simp add: toInt_samples)
  have c: "release_date ''2021'' sg = Inr (sg(RELEASE_YEAR \<mapsto> V_int 2021))"
    using release_date_1[of "''2021''" sg] by (simp add: toInt_samples)
  have e: "release_date [] sg = Inr sg"
    by (simp add: release_date_def)
  from parse_track_json_release[of w env response]
  have nr: "fst (parse_track_json w env response) = None" and r: "\<exists>sg0. sg0 RELEASE_DAY = None \<and> sg0 RELEASE_MONTH = None \<and> sg0 RELEASE_YEAR = None \<and>
      release_date (toString (obj_at (toObject (obj_at (toObject (value_at response ''item'')) ''album''))
        ''release_date'')) sg0 = Inr (m_current (snd (parse_track_json w env response)))"
    unfolding no_release_def by blast+
  show ?thesis
    using release_date_3[of y m d sg] release_date_2[of y m sg] release_date_1[of y sg]
      a b c e release_date_total[of date sg] nr r
    by blast
qed


theorem release_date_parts_witness:
  "CHR ''-'' \<notin> set ''1999'' \<and> CHR ''-'' \<notin> set ''12'' \<and> CHR ''-'' \<notin> set ''31'' \<and>
   release_date (''1999'' @ ''-'' @ ''12'' @ ''-'' @ ''31'') Map.empty =
     Inr [RELEASE_DAY \<mapsto> V_int 31, RELEASE_MONTH \<mapsto> V_int 12, RELEASE_YEAR \<mapsto> V_int 1999] \<and>
   release_date (''1999'' @ ''-'' @ ''12'') Map.empty =
     Inr [RELEASE_MONTH \<mapsto> V_int 12, RELEASE_YEAR \<mapsto> V_int 1999] \<and>
   ''1999'' \<noteq> [] \<and>
   release_date ''1999'' Map.empty = Inr [RELEASE_YEAR \<mapsto> V_int 1999]"
proof -
  have h: "CHR ''-'' \<notin> set ''1999''" "CHR ''-'' \<notin> set ''12''" "CHR ''-'' \<notin> set ''31''"
    "''1999'' \<noteq> []"
    by simp_all
  have v: "qstring_toInt ''1999'' = 1999" "qstring_toInt ''12'' = 12" "qstring_toInt ''31'' = 31"
    by (simp_all add: qstring_toInt_def isspace_def isdigit_def digit_val_def INT_MIN_def INT_MAX_def)
  note t = release_date_parts[where y = "''1999''" and m = "''12''" and d = "''31''" and sg = Map.empty]
  from t h have a: "release_date (''1999'' @ ''-'' @ ''12'' @ ''-'' @ ''31'') Map.empty =
        Inr [RELEASE_DAY \<mapsto> V_int (qstring_toInt ''31''),
             RELEASE_MONTH \<mapsto> V_int (qstring_toInt ''12''),
             RELEASE_YEAR \<mapsto> V_int (qstring_toInt ''1999'')]"
    by blast
  from t h have b: "release_date (''1999'' @ ''-'' @ ''12'') Map.empty =
        Inr [RELEASE_MONTH \<mapsto> V_int (qstring_toInt ''12''),
             RELEASE_YEAR \<mapsto> V_int (qstring_toInt ''1999'')]"
    by blast
  from t h have c: "release_date ''1999'' Map.empty =
        Inr [RELEASE_YEAR \<mapsto> V_int (qstring_toInt ''1999'')]"
    by blast
  from a b c h show ?thesis
    unfolding v by blast
qed

subsection \<open>Stop\<close>

lemma execute_command_wire:
  "wire (snd (execute_command w env a u rh rj t ty d)) =
     wire w @ (if waiting w env then [] else [Api_request a u ty (postfields ty d) t])"
  by (simp add: execute_command_def Let_def blog_def send_def split: curl_result.splits)

text \<open>
  Claim C10. For every state, hence every last-known playback status and every numbering
  of the states, the stop capability is accepted and hands the pause request (PUT on the
  pause endpoint, no request data, so curl is given the body \<^verbatim>\<open>{}\<close>) to
  \<^verbatim>\<open>execute_command\<close>, which puts it on the wire unless it is inside its backoff cooldown; nothing else is sent, and the playback status
  has no influence. It is the branch of play/pause taken when the stored status reads as
  non-zero: there the two capabilities behave identically.
\<close>

theorem stop_is_pause:
  "fst (execute_capability w env code CAP_STOP_SONG) \<and>
   wire (snd (execute_capability w env code CAP_STOP_SONG)) =
     wire w @ (if waiting w env then []
               else [Api_request (m_token w) PLAYER_PAUSE_URL (Some ''PUT'') (Some ''{}'')
                       (m_curl_timeout_ms w)]) \<and>
   (get_int code (m_current w) STATUS \<noteq> 0 \<longrightarrow>
      execute_capability w env code CAP_PLAY_PAUSE = execute_capability w env code CAP_STOP_SONG) \<and>
   (\<forall>sg. wire (snd (execute_capability (w\<lparr>m_current := sg\<rparr>) env code CAP_STOP_SONG)) =
          wire (snd (execute_capability w env code CAP_STOP_SONG)))"
proof -
  have w: "\<And>x. wire (snd (execute_capability x env code CAP_STOP_SONG)) =
     wire x @ (if waiting x env then []
               else [Api_request (m_token x) PLAYER_PAUSE_URL (Some ''PUT'') (Some ''{}'')
                       (m_curl_timeout_ms x)])"
    by (simp add: execute_capability_def Let_def case_prod_beta blog_def execute_command_wire
        postfields_def)
  have a: "fst (execute_capability w env code CAP_STOP_SONG)"
    by (simp add: execute_capability_def Let_def case_prod_beta)
  have b: "get_int code (m_current w) STATUS \<noteq> 0 \<longrightarrow>
      execute_capability w env code CAP_PLAY_PAUSE = execute_capability w env code CAP_STOP_SONG"
    by (simp add: execute_capability_def Let_def)
  have c: "\<forall>sg. wire (snd (execute_capability (w\<lparr>m_current := sg\<rparr>) env code CAP_STOP_SONG)) =
          wire (snd (execute_capability w env code CAP_STOP_SONG))"
    by (simp add: w waiting_def)
  from a w[of w] b c show ?thesis by blast
qed

theorem stop_is_pause_witness:
  "get_int (\<lambda>st. 1) (m_current listener) STATUS \<noteq> 0 \<and>
   execute_capability listener (player (cycle (Curl_ok 204 [] Empty_body))) (\<lambda>st. 1) CAP_PLAY_PAUSE =
   execute_capability listener (player (cycle (Curl_ok 204 [] Empty_body))) (\<lambda>st. 1) CAP_STOP_SONG \<and>
   wire (snd (execute_capability listener (player (cycle (Curl_ok 204 [] Empty_body))) (\<lambda>st. 1) CAP_STOP_SONG)) =
     [Api_request ''A1'' ''https://api.spotify.com/v1/me/player/pause'' (Some ''PUT'') (Some ''{}'') 1000]"
proof -
  let ?env = "player (cycle (Curl_ok 204 [] Empty_body))"
  have g: "get_int (\<lambda>st. 1) (m_current listener) STATUS \<noteq> 0"
    by (simp add: get_int_def listener_def)
  have nw: "\<not> waiting listener ?env" "wire listener = []" "m_token listener = ''A1''"
    "m_curl_timeout_ms listener = 1000"
    by (simp_all add: waiting_def listener_def fresh_def)
  from stop_is_pause[where w = listener and env = ?env and code = "\<lambda>st. 1"] g nw show ?thesis
    by (simp add: PLAYER_PAUSE_URL_def PLAYER_URL_def)
qed


end
